theory Spec2Isabelle
  imports Complex_Main "HOL-Library.Log_Nat"
begin

section \<open>Tensors, the dictionary and errors\<close>

text \<open>
  The two model files (\<^verbatim>\<open>nat_ctc_sd.py\<close>, \<^verbatim>\<open>nat_sd_glat_anneal.py\<close>) work on
  integer token tensors of shape \<open>[B, T]\<close>; they are lists of rows here. Python integers
  are unbounded, so token ids and lengths are \<open>int\<close>. Float tensors hold exact reals
  (scores, hidden states, logits); where the code divides by a count that can be zero,
  the values \<open>inf\<close> and \<open>NaN\<close> are explicit (section \<open>Float values\<close>). Rounding is not
  modelled. Collaborators of the two files (the encoder, the decoder layers, the CTC
  loss of the tensor library, the beam-search CTC decoder, the random number generator)
  are parameters of the functions that call them.
\<close>

type_synonym tokens = "int list list"

datatype error =
    RuntimeError
  | IndexError
  | TypeError
  | ZeroDivisionError
  | NameError
  | NotImplementedError

text \<open>The special symbols of the target dictionary (\<^verbatim>\<open>self.pad\<close>, \<^verbatim>\<open>self.bos\<close>,
  \<^verbatim>\<open>self.eos\<close>, \<^verbatim>\<open>self.unk\<close>).\<close>

record dictionary =
  pad :: int
  bos :: int
  eos :: int
  unk :: int

text \<open>The options of \<^verbatim>\<open>self.args\<close> that the CTC model reads below.\<close>

record args =
  copy_src_token :: bool
  src_upsample_scale :: int
  num_cross_layer_sample :: int
  label_smoothing :: real

text \<open>\<^verbatim>\<open>x.ne(pad).sum(-1)\<close> of one row.\<close>

definition count_nonpad :: "dictionary \<Rightarrow> int list \<Rightarrow> int" where
  "count_nonpad d row = int (length (filter (\<lambda>t. t \<noteq> pad d) row))"

text \<open>\<^verbatim>\<open>t.max()\<close> of a one-dimensional tensor; torch raises on an empty one.\<close>

fun tensor_max :: "int list \<Rightarrow> error + int" where
  "tensor_max [] = Inl RuntimeError"
| "tensor_max (x # xs) = Inr (fold max xs x)"

section \<open>Length initialiser\<close>

text \<open>
  The skeleton synthesis shared by \<^verbatim>\<open>initialize_output_tokens_by_src_tokens\<close> and
  \<^verbatim>\<open>regenerate_length_beam\<close>, for a length vector that is already clamped:
  \<^verbatim>\<open>
  idx_length = utils.new_arange(src_tokens, max_length)
  initial_output_tokens = src_tokens.new_zeros(B, max_length).fill_(self.pad)
  initial_output_tokens.masked_fill_(idx_length[None, :] < length_tgt[:, None], self.unk)
  initial_output_tokens[:, 0] = self.bos
  initial_output_tokens.scatter_(1, length_tgt[:, None] - 1, self.eos)
  \<close>
  One row at a time: \<open>skeleton_row d max_length len\<close>. The two writes are list updates;
  they are in range because every length is at least 2 and at most \<open>max_length\<close>
  (lemma \<open>skeleton_writes_in_range\<close>), so torch's out-of-range error cannot occur.
\<close>

definition skeleton_row :: "dictionary \<Rightarrow> nat \<Rightarrow> int \<Rightarrow> int list" where
  "skeleton_row d max_length len =
     ((map (\<lambda>t. if int t < len then unk d else pad d) [0..<max_length])
        [0 := bos d])
        [nat (len - 1) := eos d]"

definition clamp_min :: "int \<Rightarrow> int list \<Rightarrow> int list" where
  "clamp_min lo xs = map (max lo) xs"

definition build_skeleton :: "dictionary \<Rightarrow> int list \<Rightarrow> error + tokens" where
  "build_skeleton d length_tgt =
     (case tensor_max length_tgt of
        Inl e \<Rightarrow> Inl e
      | Inr max_length \<Rightarrow> Inr (map (skeleton_row d (nat max_length)) length_tgt))"

text \<open>
  \<^verbatim>\<open>_us(x, s)\<close>, that is \<^verbatim>\<open>x.unsqueeze(-1).expand(B, -1, s).reshape(B, -1)\<close>: every
  token repeated \<open>s\<close> times, contiguously. On a batch without examples
  \<^verbatim>\<open>reshape(0, -1)\<close> raises, since the free dimension cannot be inferred.
\<close>

definition us :: "tokens \<Rightarrow> int \<Rightarrow> error + tokens" where
  "us x s =
     (if x = [] then Inl RuntimeError
      else Inr (map (\<lambda>row. concat (map (replicate (nat s)) row)) x))"

text \<open>
  \<^verbatim>\<open>
  def initialize_output_tokens_by_src_tokens(self, src_tokens):
      if not self.args.copy_src_token:
          length_tgt = torch.sum(src_tokens.ne(self.tgt_dict.pad_index), -1)
          if self.args.src_upsample_scale > 2:
              length_tgt = length_tgt * self.args.src_upsample_scale
          else:
              length_tgt = length_tgt * self.args.src_upsample_scale  # + 10
          max_length = length_tgt.clamp_(min=2).max()
          ...
          return initial_output_tokens
      else:
          if self.args.src_upsample_scale <= 1:
              return src_tokens
          return _us(src_tokens, self.args.src_upsample_scale)
  \<close>
  \<^verbatim>\<open>clamp_\<close> works in place, so the clamped vector is the \<^verbatim>\<open>length_tgt\<close> of the
  following lines.
\<close>

text \<open>
  \<^verbatim>\<open>length_tgt\<close> is an int64 tensor: the product with the scale wraps around in two's
  complement. A Python integer outside the int64 range cannot be multiplied with the
  tensor at all (torch raises when it converts the scalar).
\<close>

definition int64 :: "int \<Rightarrow> int" where
  "int64 x = (x + 2 ^ 63) mod 2 ^ 64 - 2 ^ 63"

definition length_tgt_of_src :: "args \<Rightarrow> dictionary \<Rightarrow> tokens \<Rightarrow> int list" where
  "length_tgt_of_src a d src_tokens =
     clamp_min 2
       (map (\<lambda>row. if src_upsample_scale a > 2
                    then int64 (count_nonpad d row * src_upsample_scale a)
                    else int64 (count_nonpad d row * src_upsample_scale a)) src_tokens)"

definition initialize_output_tokens_by_src_tokens ::
  "args \<Rightarrow> dictionary \<Rightarrow> tokens \<Rightarrow> error + tokens" where
  "initialize_output_tokens_by_src_tokens a d src_tokens =
     (if \<not> copy_src_token a then
        (if src_upsample_scale a < - (2 ^ 63) \<or> 2 ^ 63 \<le> src_upsample_scale a
         then Inl RuntimeError
         else build_skeleton d (length_tgt_of_src a d src_tokens))
      else if src_upsample_scale a \<le> 1 then Inr src_tokens
      else us src_tokens (src_upsample_scale a))"

section \<open>Decoder state and the heap\<close>

text \<open>
  \<^verbatim>\<open>DecoderOut\<close> is a named tuple whose fields refer to tensor objects, and
  \<^verbatim>\<open>forward_decoder\<close> updates such objects in place
  (\<^verbatim>\<open>masked_scatter_\<close>, \<^verbatim>\<open>history.append\<close>). Whether the caller's state sees
  an update depends on which objects are shared, so objects live in a store and the
  fields of the tuple are addresses.
\<close>

type_synonym addr = nat

datatype obj =
    IntTensor tokens
  | FloatTensor "real list list"
  | PyList "addr list"

record heap =
  store :: "addr \<rightharpoonup> obj"
  fresh :: addr

definition alloc :: "heap \<Rightarrow> obj \<Rightarrow> heap \<times> addr" where
  "alloc h v = (h\<lparr>store := (store h)(fresh h \<mapsto> v), fresh := Suc (fresh h)\<rparr>, fresh h)"

record DecoderOut =
  output_tokens :: addr
  output_scores :: addr
  attn :: "addr option"
  step :: nat
  max_step :: nat
  history :: "addr option"

definition get_int_tensor :: "heap \<Rightarrow> addr \<Rightarrow> error + tokens" where
  "get_int_tensor h a = (case store h a of Some (IntTensor t) \<Rightarrow> Inr t | _ \<Rightarrow> Inl TypeError)"

definition get_float_tensor :: "heap \<Rightarrow> addr \<Rightarrow> error + real list list" where
  "get_float_tensor h a = (case store h a of Some (FloatTensor t) \<Rightarrow> Inr t | _ \<Rightarrow> Inl TypeError)"

definition get_list :: "heap \<Rightarrow> addr \<Rightarrow> error + addr list" where
  "get_list h a = (case store h a of Some (PyList l) \<Rightarrow> Inr l | _ \<Rightarrow> Inl TypeError)"

text \<open>
  \<^verbatim>\<open>if history is not None: history.append(output_tokens.clone())\<close>: the clone is a new
  object, the list is extended in place.
\<close>

definition history_append_clone :: "heap \<Rightarrow> addr option \<Rightarrow> addr \<Rightarrow> error + heap" where
  "history_append_clone h hist a =
     (case hist of
        None \<Rightarrow> Inr h
      | Some l \<Rightarrow>
          (case get_list h l of
             Inl e \<Rightarrow> Inl e
           | Inr items \<Rightarrow>
               (case store h a of
                  None \<Rightarrow> Inl TypeError
                | Some v \<Rightarrow>
                    (let (h1, c) = alloc h v
                     in Inr (h1\<lparr>store := (store h1)(l \<mapsto> PyList (items @ [c]))\<rparr>)))))"

section \<open>Length beam\<close>

text \<open>
  \<^verbatim>\<open>
  def regenerate_length_beam(self, decoder_out, beam_size):
      output_tokens = decoder_out.output_tokens
      length_tgt = output_tokens.ne(self.pad).sum(1)
      length_tgt = (length_tgt[:, None]
                    + utils.new_arange(length_tgt, 1, beam_size)
                    - beam_size // 2)
      length_tgt = length_tgt.view(-1).clamp_(min=2)
      max_length = length_tgt.max()
      ...
      return decoder_out._replace(
          output_tokens=initial_output_tokens, output_scores=initial_output_scores)
  \<close>
  \<^verbatim>\<open>utils.new_arange(x, 1, n)\<close> is the framework's \<^verbatim>\<open>torch.arange(n).expand(1, n)\<close>, the
  row \<open>0, \<dots>, n - 1\<close>; \<^verbatim>\<open>torch.arange\<close> raises on a negative bound. \<^verbatim>\<open>//\<close> is floor
  division, as \<open>div\<close> on \<open>int\<close> is.
\<close>

definition new_arange :: "int \<Rightarrow> error + int list" where
  "new_arange n = (if n < 0 then Inl RuntimeError else Inr (map int [0..<nat n]))"

definition beam_lengths :: "int list \<Rightarrow> int list \<Rightarrow> int \<Rightarrow> int list" where
  "beam_lengths length_tgt ar beam_size =
     clamp_min 2 (concat (map (\<lambda>l. map (\<lambda>j. l + j - beam_size div 2) ar) length_tgt))"

definition regenerate_length_beam ::
  "dictionary \<Rightarrow> heap \<Rightarrow> DecoderOut \<Rightarrow> int \<Rightarrow> error + (heap \<times> DecoderOut)" where
  "regenerate_length_beam d h decoder_out beam_size =
     (case get_int_tensor h (output_tokens decoder_out) of
        Inl e \<Rightarrow> Inl e
      | Inr toks \<Rightarrow>
          (case new_arange beam_size of
             Inl e \<Rightarrow> Inl e
           | Inr ar \<Rightarrow>
               (case build_skeleton d (beam_lengths (map (count_nonpad d) toks) ar beam_size) of
                  Inl e \<Rightarrow> Inl e
                | Inr initial_output_tokens \<Rightarrow>
                    (let (h1, a_tok) = alloc h (IntTensor initial_output_tokens);
                         (h2, a_sc) = alloc h1
                            (FloatTensor (map (map (\<lambda>_. 0)) initial_output_tokens))
                     in Inr (h2, decoder_out\<lparr>output_tokens := a_tok,
                                             output_scores := a_sc\<rparr>)))))"

section \<open>One refinement step\<close>

type_synonym logits = "real list list list"

text \<open>Python list indexing: a negative index counts from the end.\<close>

definition py_index :: "'a list \<Rightarrow> int \<Rightarrow> error + 'a" where
  "py_index xs i =
     (if 0 \<le> i \<and> i < int (length xs) then Inr (xs ! nat i)
      else if i < 0 \<and> - int (length xs) \<le> i then Inr (xs ! nat (int (length xs) + i))
      else Inl IndexError)"

text \<open>
  \<^verbatim>\<open>x.max(-1)\<close> gives, for every vocabulary row, its greatest value and the index of the
  first position that holds it; \<^verbatim>\<open>x.argmax(-1)\<close> is the index alone. The vocabulary
  dimension is never empty (the dictionary holds the special symbols).
\<close>

definition maximum :: "real list \<Rightarrow> real" where
  "maximum xs = fold max (tl xs) (hd xs)"

definition argmax :: "real list \<Rightarrow> int" where
  "argmax xs = int (length (takeWhile (\<lambda>v. v \<noteq> maximum xs) xs))"

text \<open>
  \<^verbatim>\<open>src[mask]\<close> reads the selected elements in row-major order into a flat tensor;
  \<^verbatim>\<open>self.masked_scatter_(mask, source)\<close> writes the elements of \<^verbatim>\<open>source\<close>, in
  order, to the positions of \<^verbatim>\<open>self\<close> where the mask holds. Both raise when the
  shapes disagree, the second also when the source runs out.
\<close>

definition masked_select :: "'a list list \<Rightarrow> bool list list \<Rightarrow> error + 'a list" where
  "masked_select x m =
     (if map length x = map length m
      then Inr (map fst (filter snd (zip (concat x) (concat m))))
      else Inl IndexError)"

fun masked_scatter_flat :: "'a list \<Rightarrow> bool list \<Rightarrow> 'a list \<Rightarrow> 'a list option" where
  "masked_scatter_flat [] [] src = Some []"
| "masked_scatter_flat (x # xs) (m # ms) src =
     (if m then
        (case src of
           [] \<Rightarrow> None
         | s # ss \<Rightarrow> map_option (Cons s) (masked_scatter_flat xs ms ss))
      else map_option (Cons x) (masked_scatter_flat xs ms src))"
| "masked_scatter_flat _ _ src = None"

fun unflatten :: "nat list \<Rightarrow> 'a list \<Rightarrow> 'a list list" where
  "unflatten [] xs = []"
| "unflatten (n # ns) xs = take n xs # unflatten ns (drop n xs)"

definition masked_scatter ::
  "'a list list \<Rightarrow> bool list list \<Rightarrow> 'a list \<Rightarrow> error + 'a list list" where
  "masked_scatter x m src =
     (if map length x = map length m
      then (case masked_scatter_flat (concat x) (concat m) src of
              None \<Rightarrow> Inl RuntimeError
            | Some ys \<Rightarrow> Inr (unflatten (map length x) ys))
      else Inl RuntimeError)"

text \<open>
  The decoder is a collaborator: \<open>dec normalize prev_output_tokens step\<close> is
  \<^verbatim>\<open>self.decoder(normalize=..., prev_output_tokens=..., encoder_out=encoder_out, step=step)\<close>
  for the encoder output at hand, the list of per-layer logits \<open>[B, T, V]\<close>.

  The greedy update that \<^verbatim>\<open>nat_sd_glat_anneal.forward_decoder\<close> and the
  \<^verbatim>\<open>plain_ctc\<close> branch of \<^verbatim>\<open>nat_ctc_sd.forward_decoder\<close> share:
  \<^verbatim>\<open>
  output_masks = output_tokens.ne(self.pad)
  output_logits = output_logits_list[inference_decoder_layer]
  _scores, _tokens = output_logits.max(-1)
  output_tokens.masked_scatter_(output_masks, _tokens[output_masks])
  output_scores.masked_scatter_(output_masks, _scores[output_masks])
  if history is not None:
      history.append(output_tokens.clone())
  return decoder_out._replace(output_tokens=output_tokens, output_scores=output_scores,
                              attn=None, history=history)
  \<close>
  \<^verbatim>\<open>output_tokens\<close> and \<^verbatim>\<open>output_scores\<close> are the objects of the state passed in.
\<close>

definition greedy_update ::
  "dictionary \<Rightarrow> int \<Rightarrow> heap \<Rightarrow> DecoderOut \<Rightarrow> logits list \<Rightarrow> error + (heap \<times> DecoderOut)" where
  "greedy_update d inference_decoder_layer h decoder_out output_logits_list =
     (case get_int_tensor h (output_tokens decoder_out) of
        Inl e \<Rightarrow> Inl e
      | Inr toks \<Rightarrow>
     (case get_float_tensor h (output_scores decoder_out) of
        Inl e \<Rightarrow> Inl e
      | Inr scores \<Rightarrow>
     (let output_masks = map (map (\<lambda>t. t \<noteq> pad d)) toks in
     (case py_index output_logits_list inference_decoder_layer of
        Inl e \<Rightarrow> Inl e
      | Inr output_logits \<Rightarrow>
     (let scores' = map (map maximum) output_logits;
          tokens' = map (map argmax) output_logits in
     (case masked_select tokens' output_masks of
        Inl e \<Rightarrow> Inl e
      | Inr sel_tokens \<Rightarrow>
     (case masked_scatter toks output_masks sel_tokens of
        Inl e \<Rightarrow> Inl e
      | Inr new_tokens \<Rightarrow>
     (let h1 = h\<lparr>store := (store h)(output_tokens decoder_out \<mapsto> IntTensor new_tokens)\<rparr> in
     (case masked_select scores' output_masks of
        Inl e \<Rightarrow> Inl e
      | Inr sel_scores \<Rightarrow>
     (case masked_scatter scores output_masks sel_scores of
        Inl e \<Rightarrow> Inl e
      | Inr new_scores \<Rightarrow>
     (let h2 = h1\<lparr>store := (store h1)(output_scores decoder_out \<mapsto> FloatTensor new_scores)\<rparr> in
     (case history_append_clone h2 (history decoder_out) (output_tokens decoder_out) of
        Inl e \<Rightarrow> Inl e
      | Inr h3 \<Rightarrow>
          Inr (h3, decoder_out\<lparr>output_tokens := output_tokens decoder_out,
                                output_scores := output_scores decoder_out,
                                attn := None,
                                history := history decoder_out\<rparr>)))))))))))))"

text \<open>\<^verbatim>\<open>nat_sd_glat_anneal.py\<close>: the decoder runs with \<^verbatim>\<open>normalize=True\<close>.\<close>

definition forward_decoder ::
  "dictionary \<Rightarrow> (bool \<Rightarrow> tokens \<Rightarrow> nat \<Rightarrow> error + logits list) \<Rightarrow> int \<Rightarrow>
   heap \<Rightarrow> DecoderOut \<Rightarrow> error + (heap \<times> DecoderOut)" where
  "forward_decoder d dec inference_decoder_layer h decoder_out =
     (case get_int_tensor h (output_tokens decoder_out) of
        Inl e \<Rightarrow> Inl e
      | Inr toks \<Rightarrow>
          (case dec True toks (step decoder_out) of
             Inl e \<Rightarrow> Inl e
           | Inr output_logits_list \<Rightarrow>
               greedy_update d inference_decoder_layer h decoder_out output_logits_list))"

text \<open>
  \<^verbatim>\<open>nat_ctc_sd.py\<close>: the decoder runs with \<^verbatim>\<open>normalize=False\<close>; unless
  \<^verbatim>\<open>plain_ctc\<close> is set, the beam-search CTC decoder (a collaborator,
  \<open>ctc_decode logits output_length\<close> giving \<^verbatim>\<open>beam_results\<close> \<open>[B, beams, T']\<close> and
  \<^verbatim>\<open>out_lens\<close> \<open>[B, beams]\<close>, the softmax folded into it) replaces the whole output:
  \<^verbatim>\<open>
  output_length = torch.sum(output_tokens.ne(self.tgt_dict.pad_index), dim=-1)
  beam_results, beam_scores, timesteps, out_lens = self.ctc_decoder.decode(
      F.softmax(output_logits, -1), output_length)
  top_beam_tokens = beam_results[:, 0, :]
  top_beam_len = out_lens[:, 0]
  mask = torch.arange(0, top_beam_tokens.size(1)).type_as(top_beam_len). \
      repeat(top_beam_len.size(0), 1).lt(top_beam_len.unsqueeze(1))
  top_beam_tokens[~mask] = self.decoder.dictionary.pad()
  if history is not None:
      history.append(output_tokens.clone())
  return decoder_out._replace(output_tokens=top_beam_tokens.to(output_logits.device),
                              output_scores=torch.full(top_beam_tokens.size(), 1.0),
                              attn=None, history=history)
  \<close>
\<close>

definition first_beam :: "'a list list \<Rightarrow> error + 'a list" where
  "first_beam xs = (if list_all (\<lambda>x. x \<noteq> []) xs then Inr (map hd xs) else Inl IndexError)"

definition pad_beyond :: "dictionary \<Rightarrow> int list \<Rightarrow> int \<Rightarrow> int list" where
  "pad_beyond d row len =
     map (\<lambda>(t, tok). if int t < len then tok else pad d) (zip [0..<length row] row)"

definition forward_decoder_ctc ::
  "dictionary \<Rightarrow> bool \<Rightarrow> (bool \<Rightarrow> tokens \<Rightarrow> nat \<Rightarrow> error + logits list) \<Rightarrow>
   (logits \<Rightarrow> int list \<Rightarrow> int list list list \<times> int list list) \<Rightarrow> int \<Rightarrow>
   heap \<Rightarrow> DecoderOut \<Rightarrow> error + (heap \<times> DecoderOut)" where
  "forward_decoder_ctc d plain_ctc dec ctc_decode inference_decoder_layer h decoder_out =
     (case get_int_tensor h (output_tokens decoder_out) of
        Inl e \<Rightarrow> Inl e
      | Inr toks \<Rightarrow>
     (case dec False toks (step decoder_out) of
        Inl e \<Rightarrow> Inl e
      | Inr output_logits_list \<Rightarrow>
     (case py_index output_logits_list inference_decoder_layer of
        Inl e \<Rightarrow> Inl e
      | Inr output_logits \<Rightarrow>
     (if plain_ctc
      then greedy_update d inference_decoder_layer h decoder_out output_logits_list
      else
     (let output_length = map (count_nonpad d) toks;
          (beam_results, out_lens) = ctc_decode output_logits output_length in
     (case first_beam beam_results of
        Inl e \<Rightarrow> Inl e
      | Inr top_beam_tokens \<Rightarrow>
     (case first_beam out_lens of
        Inl e \<Rightarrow> Inl e
      | Inr top_beam_len \<Rightarrow>
     (let new_tokens = map2 (pad_beyond d) top_beam_tokens top_beam_len in
     (case history_append_clone h (history decoder_out) (output_tokens decoder_out) of
        Inl e \<Rightarrow> Inl e
      | Inr h1 \<Rightarrow>
     (let (h2, a_tok) = alloc h1 (IntTensor new_tokens);
          (h3, a_sc) = alloc h2 (FloatTensor (map (map (\<lambda>_. 1)) new_tokens))
      in Inr (h3, decoder_out\<lparr>output_tokens := a_tok,
                              output_scores := a_sc,
                              attn := None,
                              history := history decoder_out\<rparr>)))))))))))"

section \<open>Float values\<close>

text \<open>
  Float tensors hold exact reals here, together with the three special values that the
  code can produce by dividing by a count that is zero. Rounding is not modelled.
  The operations follow IEEE 754 on the special values (a zero divisor is a count, so
  it is \<open>+0\<close>).
\<close>

datatype float = Fin real | PosInf | NegInf | NaN

fun fdiv :: "float \<Rightarrow> float \<Rightarrow> float" where
  "fdiv (Fin a) (Fin b) =
     (if b \<noteq> 0 then Fin (a / b) else if a = 0 then NaN else if 0 < a then PosInf else NegInf)"
| "fdiv NaN _ = NaN"
| "fdiv _ NaN = NaN"
| "fdiv (Fin a) _ = Fin 0"
| "fdiv PosInf (Fin b) = (if 0 \<le> b then PosInf else NegInf)"
| "fdiv NegInf (Fin b) = (if 0 \<le> b then NegInf else PosInf)"
| "fdiv _ _ = NaN"

fun fmul :: "float \<Rightarrow> float \<Rightarrow> float" where
  "fmul (Fin a) (Fin b) = Fin (a * b)"
| "fmul NaN _ = NaN"
| "fmul _ NaN = NaN"
| "fmul (Fin a) PosInf = (if a = 0 then NaN else if 0 < a then PosInf else NegInf)"
| "fmul (Fin a) NegInf = (if a = 0 then NaN else if 0 < a then NegInf else PosInf)"
| "fmul PosInf (Fin b) = (if b = 0 then NaN else if 0 < b then PosInf else NegInf)"
| "fmul NegInf (Fin b) = (if b = 0 then NaN else if 0 < b then NegInf else PosInf)"
| "fmul PosInf PosInf = PosInf"
| "fmul NegInf NegInf = PosInf"
| "fmul _ _ = NegInf"

fun fadd :: "float \<Rightarrow> float \<Rightarrow> float" where
  "fadd (Fin a) (Fin b) = Fin (a + b)"
| "fadd NaN _ = NaN"
| "fadd _ NaN = NaN"
| "fadd PosInf NegInf = NaN"
| "fadd NegInf PosInf = NaN"
| "fadd PosInf _ = PosInf"
| "fadd _ PosInf = PosInf"
| "fadd _ _ = NegInf"

fun fsqrt :: "float \<Rightarrow> float" where
  "fsqrt (Fin a) = (if a < 0 then NaN else Fin (sqrt a))"
| "fsqrt PosInf = PosInf"
| "fsqrt _ = NaN"

text \<open>
  The default float type of the tensor library is binary32. Where a result of the code
  depends on the rounding (the keep probability of glancing training, which is compared
  with a uniform sample; the division of a CTC loss by a target length), the operations
  below round as binary32 does: to the nearest representable number, ties to the even
  significand, with 24 significand bits, the least quantum \<open>2\<^sup>-\<^sup>1\<^sup>4\<^sup>9\<close> and overflow to
  infinity from \<open>2\<^sup>1\<^sup>2\<^sup>8\<close> on. Signed zeros are not distinguished.

  \<open>rne\<close> is the nearest integer, ties to even. A magnitude is measured in units of the
  least quantum; when its integer part has \<open>n\<close> binary digits, the representable numbers
  around it are the multiples of \<open>2 ^ (n - 24)\<close> units (of one unit for \<open>n \<le> 24\<close>, the
  subnormal numbers and the first normal binades).
\<close>

definition rne :: "real \<Rightarrow> int" where
  "rne z =
     (let f = \<lfloor>z\<rfloor>; r = z - of_int f
      in if r < 1 / 2 then f else if 1 / 2 < r then f + 1 else if even f then f else f + 1)"

definition ulp_shift :: "real \<Rightarrow> nat" where
  "ulp_shift X = nat (bitlen \<lfloor>X\<rfloor> - 24)"

definition round_scaled :: "real \<Rightarrow> int" where
  "round_scaled X = 2 ^ ulp_shift X * rne (X / 2 ^ ulp_shift X)"

definition round32 :: "real \<Rightarrow> real" where
  "round32 x = sgn x * of_int (round_scaled (\<bar>x\<bar> * 2 ^ 149)) / 2 ^ 149"

text \<open>
  \<open>fl32 x\<close> is the binary32 value of the real \<open>x\<close>: the conversion of a Python float or of
  an integer tensor element, and the rounding of an exact result. \<open>fdiv32\<close> and \<open>fmul32\<close>
  are the binary32 division and multiplication.
\<close>

definition fl32 :: "real \<Rightarrow> float" where
  "fl32 x =
     (if 2 ^ 128 \<le> \<bar>round32 x\<bar> then (if 0 < x then PosInf else NegInf)
      else Fin (round32 x))"

definition round_float :: "float \<Rightarrow> float" where
  "round_float x = (case x of Fin a \<Rightarrow> fl32 a | _ \<Rightarrow> x)"

definition fdiv32 :: "float \<Rightarrow> float \<Rightarrow> float" where
  "fdiv32 a b = round_float (fdiv a b)"

definition fmul32 :: "float \<Rightarrow> float \<Rightarrow> float" where
  "fmul32 a b = round_float (fmul a b)"

text \<open>\<^verbatim>\<open>u < k\<close> for a finite \<open>u\<close>; every comparison with NaN is false.\<close>

fun less_float :: "real \<Rightarrow> float \<Rightarrow> bool" where
  "less_float u (Fin k) = (u < k)"
| "less_float u PosInf = True"
| "less_float u _ = False"

definition fsum :: "float list \<Rightarrow> float" where
  "fsum xs = foldl fadd (Fin 0) xs"

definition fmean :: "float list \<Rightarrow> float" where
  "fmean xs = fdiv (fsum xs) (Fin (real (length xs)))"


section \<open>Glancing training\<close>

text \<open>
  Lines 162 to 172 of \<^verbatim>\<open>nat_sd_glat_anneal.py\<close>, inside \<^verbatim>\<open>forward\<close>:
  \<^verbatim>\<open>
  pred_tokens = word_ins_out_list[-1].argmax(-1)
  nonpad_positions = ~tgt_tokens.eq(self.pad)
  same_num = ((pred_tokens == tgt_tokens) & nonpad_positions).sum(1)
  seq_lens = (nonpad_positions).sum(1)
  keep_prob = ((seq_lens - same_num) / seq_lens * glat['context_p']).unsqueeze(-1)
  # keep: True, drop: False
  keep_word_mask = (torch.rand(prev_output_tokens.shape, device=pred_tokens.device) < keep_prob).bool()
  glat_prev_output_tokens = prev_output_tokens.masked_fill(keep_word_mask, 0) + tgt_tokens.masked_fill(~keep_word_mask, 0)
  glat_tgt_tokens = tgt_tokens.masked_fill(keep_word_mask, self.pad)
  prev_output_tokens, tgt_tokens = glat_prev_output_tokens, glat_tgt_tokens
  \<close>
  The uniform sample \<^verbatim>\<open>torch.rand(...)\<close> is an argument. The tensors of one call
  have one shape \<open>[B, T]\<close> (torch raises otherwise); the element-wise operations pair
  the elements up with \<open>map2\<close>.
\<close>

definition same_num :: "dictionary \<Rightarrow> int list \<Rightarrow> int list \<Rightarrow> int" where
  "same_num d pred_row tgt_row =
     int (length (filter (\<lambda>(p, t). p = t \<and> t \<noteq> pad d) (zip pred_row tgt_row)))"

definition keep_prob :: "dictionary \<Rightarrow> real \<Rightarrow> int list \<Rightarrow> int list \<Rightarrow> float" where
  "keep_prob d context_p pred_row tgt_row =
     fmul (fdiv (Fin (of_int (count_nonpad d tgt_row - same_num d pred_row tgt_row)))
                (Fin (of_int (count_nonpad d tgt_row))))
          (Fin context_p)"

definition keep_word_mask :: "real list list \<Rightarrow> float list \<Rightarrow> bool list list" where
  "keep_word_mask rand kp = map2 (\<lambda>row k. map (\<lambda>u. less_float u k) row) rand kp"

definition masked_fill :: "'a list list \<Rightarrow> bool list list \<Rightarrow> 'a \<Rightarrow> 'a list list" where
  "masked_fill x m v = map2 (map2 (\<lambda>e b. if b then v else e)) x m"

definition tensor_add :: "tokens \<Rightarrow> tokens \<Rightarrow> tokens" where
  "tensor_add x y = map2 (map2 (+)) x y"

definition tensor_not :: "bool list list \<Rightarrow> bool list list" where
  "tensor_not m = map (map Not) m"

record glancing_out =
  g_keep_prob :: "float list"
  g_keep_word_mask :: "bool list list"
  glat_prev_output_tokens :: tokens
  glat_tgt_tokens :: tokens

definition glancing ::
  "dictionary \<Rightarrow> real \<Rightarrow> real list list \<Rightarrow> tokens \<Rightarrow> tokens \<Rightarrow> tokens \<Rightarrow> glancing_out" where
  "glancing d context_p rand pred_tokens prev_output_tokens tgt_tokens =
     (let kp = map2 (keep_prob d context_p) pred_tokens tgt_tokens;
          keep = keep_word_mask rand kp
      in \<lparr>g_keep_prob = kp,
          g_keep_word_mask = keep,
          glat_prev_output_tokens =
            tensor_add (masked_fill prev_output_tokens keep 0)
                       (masked_fill tgt_tokens (tensor_not keep) 0),
          glat_tgt_tokens = masked_fill tgt_tokens keep (pad d)\<rparr>)"

section \<open>The training forward pass of the glancing model\<close>

text \<open>
  \<^verbatim>\<open>NATransformerModel.forward\<close> of \<^verbatim>\<open>nat_sd_glat_anneal.py\<close>. The encoder and the
  length predictor are collaborators whose results do not reach the branches below;
  they are left out. \<open>dec prev_output_tokens feed_forward_weights\<close> is
  \<^verbatim>\<open>self.decoder(normalize=False, prev_output_tokens=..., encoder_out=encoder_out,
  feed_forward_weights=...)\<close>, with \<open>None\<close> for a call that does not pass the weights.

  \<^verbatim>\<open>glat\<close> is \<^verbatim>\<open>None\<close> or a dictionary (an association list here); an empty
  dictionary is false in a condition. The local variable \<^verbatim>\<open>all_layer_weight\<close> is
  assigned only inside the \<^verbatim>\<open>context_p\<close> branch: it is an \<open>option\<close>, \<open>None\<close> while
  unassigned, and reading it unassigned raises (\<^verbatim>\<open>UnboundLocalError\<close>, a
  \<^verbatim>\<open>NameError\<close>).
\<close>

record glat_args =
  fix_schedule :: bool
  always_half :: bool

record glat_info =
  glat_accu :: float
  glat_context_p :: real
  glat_keep :: float

record ret_val =
  word_ins_out :: "logits list"
  word_ins_tgt :: tokens
  word_ins_mask :: "bool list list"
  ret_glat_info :: "glat_info option"
  ret_glat_anneal :: "float list option"

text \<open>
  \<^verbatim>\<open>
  per_layer_acc = torch.div(
      torch.sum((per_layer_output_logits.argmax(-1) == tgt_tokens) & tgt_mask, dim=-1, dtype=...),
      torch.sum(tgt_mask, dim=-1))
  \<close>
  for one example; \<^verbatim>\<open>tgt_tokens\<close> is the glancing target by then, \<^verbatim>\<open>tgt_mask\<close> the
  mask of the original target.
\<close>

definition per_layer_acc :: "int list \<Rightarrow> int list \<Rightarrow> bool list \<Rightarrow> float" where
  "per_layer_acc pred_row tgt_row mask_row =
     fdiv (Fin (real (length (filter (\<lambda>(p, t, m). p = t \<and> m)
                                (zip pred_row (zip tgt_row mask_row))))))
          (Fin (real (length (filter id mask_row))))"

definition all_layer_weights ::
  "glat_args \<Rightarrow> real option \<Rightarrow> nat \<Rightarrow> nat \<Rightarrow> float list list \<Rightarrow> error + float list list" where
  "all_layer_weights a train_ratio n_layers batch all_layer_acc_list =
     (if fix_schedule a then
        (case train_ratio of
           None \<Rightarrow> Inl TypeError
         | Some r \<Rightarrow> Inr (replicate n_layers (replicate batch (Fin (min 0.5 (r * 10.0))))))
      else if always_half a then Inr (replicate n_layers (replicate batch (Fin 0.5)))
      else Inr (map (map (\<lambda>acc. fdiv (fsqrt acc) (Fin 2))) all_layer_acc_list))"

record glat_stage_out =
  st_prev_output_tokens :: tokens
  st_tgt_tokens :: tokens
  st_glat_info :: "glat_info option"
  st_anneal_info :: "float list option"
  st_all_layer_weight :: "float list list option"

definition glat_stage ::
  "glat_args \<Rightarrow> dictionary \<Rightarrow> (tokens \<Rightarrow> float list list option \<Rightarrow> error + logits list) \<Rightarrow>
   tokens \<Rightarrow> tokens \<Rightarrow> (string \<times> real) list option \<Rightarrow> real option \<Rightarrow> real list list \<Rightarrow>
   error + glat_stage_out" where
  "glat_stage a d dec prev_output_tokens tgt_tokens glat train_ratio rand =
     (let tgt_mask = map (map (\<lambda>t. t \<noteq> pad d)) tgt_tokens;
          skip = \<lparr>st_prev_output_tokens = prev_output_tokens, st_tgt_tokens = tgt_tokens,
                  st_glat_info = None, st_anneal_info = None, st_all_layer_weight = None\<rparr>
      in case glat of
        None \<Rightarrow> Inr skip
      | Some g \<Rightarrow>
          if g = [] then Inr skip
          else
            (case map_of g ''context_p'' of
               Some context_p \<Rightarrow>
                 (case dec prev_output_tokens None of
                    Inl e \<Rightarrow> Inl e
                  | Inr word_ins_out_list \<Rightarrow>
                 (case py_index word_ins_out_list (- 1) of
                    Inl e \<Rightarrow> Inl e
                  | Inr last_logits \<Rightarrow>
                 (let pred_tokens = map (map argmax) last_logits;
                      gl = glancing d context_p rand pred_tokens prev_output_tokens tgt_tokens;
                      info = \<lparr>glat_accu =
                                fdiv (Fin (of_int (sum_list (map2 (same_num d) pred_tokens tgt_tokens))))
                                     (Fin (of_int (sum_list (map (count_nonpad d) tgt_tokens)))),
                              glat_context_p = context_p,
                              glat_keep = fmean (g_keep_prob gl)\<rparr>;
                      all_layer_acc_list =
                        map (\<lambda>per_layer_output_logits.
                               map2 (\<lambda>pred_row (tgt_row, mask_row). per_layer_acc pred_row tgt_row mask_row)
                                 (map (map argmax) per_layer_output_logits)
                                 (zip (glat_tgt_tokens gl) tgt_mask))
                            word_ins_out_list
                  in case all_layer_weights a train_ratio (length word_ins_out_list)
                            (length last_logits) all_layer_acc_list of
                       Inl e \<Rightarrow> Inl e
                     | Inr w \<Rightarrow>
                         Inr \<lparr>st_prev_output_tokens = glat_prev_output_tokens gl,
                              st_tgt_tokens = glat_tgt_tokens gl,
                              st_glat_info = Some info,
                              st_anneal_info = Some (map fmean all_layer_acc_list),
                              st_all_layer_weight = Some w\<rparr>)))
             | None \<Rightarrow>
                 (case map_of g ''schedule'' of
                    Some _ \<Rightarrow> Inl NotImplementedError
                  | None \<Rightarrow> Inr skip)))"

definition forward ::
  "glat_args \<Rightarrow> dictionary \<Rightarrow> (tokens \<Rightarrow> float list list option \<Rightarrow> error + logits list) \<Rightarrow>
   bool \<Rightarrow> tokens \<Rightarrow> tokens \<Rightarrow> (string \<times> real) list option \<Rightarrow> real option \<Rightarrow> real list list \<Rightarrow>
   error + ret_val" where
  "forward a d dec training prev_output_tokens tgt_tokens glat train_ratio rand =
     (let tgt_mask = map (map (\<lambda>t. t \<noteq> pad d)) tgt_tokens
      in case glat_stage a d dec prev_output_tokens tgt_tokens glat train_ratio rand of
        Inl e \<Rightarrow> Inl e
      | Inr st \<Rightarrow>
          (case (if training then
                   (case st_all_layer_weight st of
                      None \<Rightarrow> Inl NameError
                    | Some all_layer_weight \<Rightarrow>
                        dec (st_prev_output_tokens st) (Some all_layer_weight))
                 else dec (st_prev_output_tokens st) None) of
             Inl e \<Rightarrow> Inl e
           | Inr word_ins_out_list \<Rightarrow>
               Inr \<lparr>word_ins_out = word_ins_out_list,
                    word_ins_tgt = st_tgt_tokens st,
                    word_ins_mask = tgt_mask,
                    ret_glat_info = st_glat_info st,
                    ret_glat_anneal = st_anneal_info st\<rparr>))"

section \<open>Self-conditioning decoder core\<close>

text \<open>
  \<^verbatim>\<open>NATransformerDecoder.extract_features\<close> of \<^verbatim>\<open>nat_sd_glat_anneal.py\<close>. Hidden
  states are \<open>T \<times> B \<times> C\<close>, the per-layer logits \<open>T \<times> B \<times> V\<close>. The learned parts are
  fields of the decoder: the embedding front end (\<^verbatim>\<open>forward_embedding\<close>, with or without
  the copy of the source embeddings), the output head \<^verbatim>\<open>output_layer\<close>, the embedding
  table \<^verbatim>\<open>embed_tokens.weight\<close> (\<open>V \<times> C\<close>), the softmax kernel, the layers (each
  with the encoder output and the padding masks of the call folded in), the final layer
  norm and the output projection.
\<close>

type_synonym hidden = "real list list list"

record decoder =
  forward_embedding :: "bool \<Rightarrow> tokens \<Rightarrow> hidden"
  output_layer :: "hidden \<Rightarrow> logits"
  embed_tokens_weight :: "real list list"
  softmax :: "real list \<Rightarrow> real list"
  layers :: "(hidden \<Rightarrow> hidden) list"
  layer_norm :: "(hidden \<Rightarrow> hidden) option"
  project_out_dim :: "(hidden \<Rightarrow> hidden) option"

record decoder_args =
  hard_argmax :: bool
  yhat_temp :: real

text \<open>
  \<^verbatim>\<open>
  if not self.args.hard_argmax:
      y_hat = torch.matmul(
          torch.softmax(layer_out_logits.detach() / temperature, dim=-1).view(-1, V),
          self.embed_tokens.weight).view(x.size())
  else:
      y_hat = self.embed_tokens(layer_out_logits.argmax(dim=-1))
  \<close>
\<close>

definition vec_mat :: "real list \<Rightarrow> real list list \<Rightarrow> real list" where
  "vec_mat p w =
     map (\<lambda>c. sum_list (map2 (\<lambda>pv row. pv * row ! c) p w)) [0..<length (hd w)]"

definition y_hat_of :: "decoder_args \<Rightarrow> decoder \<Rightarrow> logits \<Rightarrow> hidden" where
  "y_hat_of a dc layer_out_logits =
     (if \<not> hard_argmax a then
        map (map (\<lambda>v. vec_mat (softmax dc (map (\<lambda>z. z / yhat_temp a) v))
                             (embed_tokens_weight dc)))
            layer_out_logits
      else
        map (map (\<lambda>v. embed_tokens_weight dc ! nat (argmax v))) layer_out_logits)"

text \<open>
  \<^verbatim>\<open>
  if feed_forward_weights is None:
      new_x = (x + y_hat) / torch.sqrt(torch.tensor(2.))
  else:
      p = feed_forward_weights[i].unsqueeze(0).unsqueeze(2)
      one_minus_p = (1 - p)
      new_x = torch.div((p * x + one_minus_p * y_hat),
                        torch.sqrt(torch.square(p) + torch.square(one_minus_p)))
  \<close>
  \<open>p\<close> holds one weight for every example of the batch.
\<close>

definition blend_plain :: "hidden \<Rightarrow> hidden \<Rightarrow> hidden" where
  "blend_plain x y_hat = map2 (map2 (map2 (\<lambda>a b. (a + b) / sqrt 2))) x y_hat"

definition blend_weighted :: "real list \<Rightarrow> hidden \<Rightarrow> hidden \<Rightarrow> hidden" where
  "blend_weighted p x y_hat =
     map2 (\<lambda>xt yt.
             map2 (\<lambda>pb (xb, yb).
                     map2 (\<lambda>a b. (pb * a + (1 - pb) * b) / sqrt (pb\<^sup>2 + (1 - pb)\<^sup>2)) xb yb)
                  p (zip xt yt))
          x y_hat"

definition new_x_of ::
  "real list list option \<Rightarrow> nat \<Rightarrow> hidden \<Rightarrow> hidden \<Rightarrow> error + hidden" where
  "new_x_of feed_forward_weights i x y_hat =
     (case feed_forward_weights of
        None \<Rightarrow> Inr (blend_plain x y_hat)
      | Some w \<Rightarrow>
          (if i < length w then Inr (blend_weighted (w ! i) x y_hat) else Inl IndexError))"

record loop_state =
  cur_x :: hidden
  inner_states :: "hidden list"
  all_layer_output_logits :: "logits list"

text \<open>
  \<^verbatim>\<open>
  for i, layer in enumerate(self.layers):
      if (early_exit is not None) and (i >= early_exit):
          break
      layer_out_logits = self.output_layer(x)
      ... y_hat ...
      if i > 0:
          all_layer_output_logits.append(layer_out_logits)
      ... new_x ...
      x, attn, _ = layer(new_x, ...)
      inner_states.append(x)
  \<close>
  \<open>decoder_loop a dc early_exit w i ls st\<close> runs the layers \<open>ls\<close> that are left, the next one
  having index \<open>i\<close>.
\<close>

fun decoder_loop ::
  "decoder_args \<Rightarrow> decoder \<Rightarrow> int option \<Rightarrow> real list list option \<Rightarrow> nat \<Rightarrow>
   (hidden \<Rightarrow> hidden) list \<Rightarrow> loop_state \<Rightarrow> error + loop_state" where
  "decoder_loop a dc early_exit w i [] st = Inr st"
| "decoder_loop a dc early_exit w i (layer # rest) st =
     (if (case early_exit of None \<Rightarrow> False | Some e \<Rightarrow> int i \<ge> e) then Inr st
      else
        (let x = cur_x st;
             layer_out_logits = output_layer dc x;
             y_hat = y_hat_of a dc layer_out_logits;
             logits' = (if i > 0 then all_layer_output_logits st @ [layer_out_logits]
                        else all_layer_output_logits st)
         in case new_x_of w i x y_hat of
              Inl e \<Rightarrow> Inl e
            | Inr new_x \<Rightarrow>
                (let x' = layer new_x
                 in decoder_loop a dc early_exit w (Suc i) rest
                      \<lparr>cur_x = x', inner_states = inner_states st @ [x'],
                       all_layer_output_logits = logits'\<rparr>)))"

record features =
  feat_x :: hidden
  feat_inner_states :: "hidden list"
  feat_all_layer_output_logits :: "logits list"

text \<open>
  \<^verbatim>\<open>
  x = x.transpose(0, 1)
  inner_states = [x]
  all_layer_output_logits = []
  for ...
  all_layer_output_logits.append(self.output_layer(x))
  if self.layer_norm:
      x = self.layer_norm(x)
  x = x.transpose(0, 1)
  if self.project_out_dim is not None:
      x = self.project_out_dim(x)
  return x, {"attn": attn, "inner_states": inner_states,
             "all_layer_output_logits": all_layer_output_logits}
  \<close>
  \<open>forward_embedding\<close> gives the embedded input already in \<open>T \<times> B \<times> C\<close> order.
\<close>

definition extract_features ::
  "decoder_args \<Rightarrow> decoder \<Rightarrow> tokens \<Rightarrow> int option \<Rightarrow> bool \<Rightarrow> real list list option \<Rightarrow>
   error + features" where
  "extract_features a dc prev_output_tokens early_exit embedding_copy feed_forward_weights =
     (let x = forward_embedding dc embedding_copy prev_output_tokens
      in case decoder_loop a dc early_exit feed_forward_weights 0 (layers dc)
                \<lparr>cur_x = x, inner_states = [x], all_layer_output_logits = []\<rparr> of
           Inl e \<Rightarrow> Inl e
         | Inr st \<Rightarrow>
             (let logits' = all_layer_output_logits st @ [output_layer dc (cur_x st)];
                  x1 = (case layer_norm dc of None \<Rightarrow> cur_x st | Some lnorm \<Rightarrow> lnorm (cur_x st));
                  x2 = transpose x1;
                  x3 = (case project_out_dim dc of None \<Rightarrow> x2 | Some proj \<Rightarrow> proj x2)
              in Inr \<lparr>feat_x = x3, feat_inner_states = inner_states st,
                      feat_all_layer_output_logits = logits'\<rparr>))"

section \<open>CTC loss\<close>

text \<open>
  \<^verbatim>\<open>logits.log_softmax(-1)\<close> of one vocabulary row, over exact reals:
  \<open>x\<^sub>i - ln (\<Sum>\<^sub>j exp x\<^sub>j)\<close>.
\<close>

definition log_softmax :: "real list \<Rightarrow> real list" where
  "log_softmax v = map (\<lambda>x. x - ln (sum_list (map exp v))) v"

text \<open>
  \<^verbatim>\<open>F.ctc_loss\<close> belongs to the tensor library; it is a parameter, the two fields of
  \<open>torch\<close>. \<open>ctc_loss_mean\<close> and \<open>ctc_loss_none\<close> stand for
  \<^verbatim>\<open>F.ctc_loss(log_probs_T.float(), targets, logit_lengths, target_lengths,
  blank=blank_index, reduction=..., zero_infinity=True)\<close> with the two reductions (the
  transposition to time-major order is folded in). They are functions: the library
  call is taken to return.
\<close>

record torch =
  ctc_loss_mean :: "logits \<Rightarrow> int list \<Rightarrow> int list \<Rightarrow> int list \<Rightarrow> int \<Rightarrow> float"
  ctc_loss_none :: "logits \<Rightarrow> int list \<Rightarrow> int list \<Rightarrow> int list \<Rightarrow> int \<Rightarrow> float list"

text \<open>A loss is a scalar (\<^verbatim>\<open>reduce=True\<close>) or one value for every example.\<close>

datatype loss = Scalar float | PerExample "float list"

fun loss_map :: "(float \<Rightarrow> float) \<Rightarrow> loss \<Rightarrow> loss" where
  "loss_map f (Scalar x) = Scalar (f x)"
| "loss_map f (PerExample xs) = PerExample (map f xs)"

fun loss_add :: "loss \<Rightarrow> loss \<Rightarrow> loss" where
  "loss_add (Scalar a) (Scalar b) = Scalar (fadd a b)"
| "loss_add (Scalar a) (PerExample ys) = PerExample (map (fadd a) ys)"
| "loss_add (PerExample xs) (Scalar b) = PerExample (map (\<lambda>x. fadd x b) xs)"
| "loss_add (PerExample xs) (PerExample ys) = PerExample (map2 fadd xs ys)"


definition mask_count :: "bool list \<Rightarrow> int" where
  "mask_count m = int (length (filter id m))"

record ctc_result =
  ctc_loss_value :: loss
  n_invalid_samples :: int
  warning :: "int option"

text \<open>
  \<^verbatim>\<open>
  logit_lengths = (logit_mask.bool()).long().sum(1)
  target_lengths = (target_mask.bool()).long().sum(1)
  log_probs = logits.log_softmax(-1)
  log_probs_T = log_probs.transpose(0, 1)
  targets = targets.long()
  targets = targets[target_mask.bool()]
  if reduce:
      loss = F.ctc_loss(..., reduction="mean", zero_infinity=True)
  else:
      loss = F.ctc_loss(..., reduction="none", zero_infinity=True)
      loss = torch.stack([a / b for a, b in zip(loss, target_lengths)])
  n_invalid_samples = (logit_lengths < target_lengths).long().sum()
  if n_invalid_samples > 0:
      logger.warning(f"... {n_invalid_samples} samples")
      # raise ValueError
  if label_smoothing > 0:
      smoothed_loss = -log_probs.mean(-1)[logit_mask.bool()].mean()
      loss = (1 - label_smoothing) * loss + label_smoothing * smoothed_loss
  return loss
  \<close>
  The targets are two-dimensional (the call sites pass \<open>[B, T]\<close> targets). The logged
  warning is the field \<open>warning\<close> of the result.
\<close>

definition smoothed_loss :: "logits \<Rightarrow> bool list list \<Rightarrow> error + float" where
  "smoothed_loss log_probs logit_mask =
     (case masked_select (map (map (\<lambda>v. fmean (map Fin v))) log_probs) logit_mask of
        Inl e \<Rightarrow> Inl e
      | Inr sel \<Rightarrow> Inr (fmul (Fin (- 1)) (fmean sel)))"

definition sequence_ctc_loss_with_logits ::
  "torch \<Rightarrow> logits \<Rightarrow> bool list list \<Rightarrow> tokens \<Rightarrow> bool list list \<Rightarrow> int \<Rightarrow> real \<Rightarrow> bool \<Rightarrow>
   error + ctc_result" where
  "sequence_ctc_loss_with_logits lib logits logit_mask targets target_mask blank_index
       smoothing reduce =
     (let logit_lengths = map mask_count logit_mask;
          target_lengths = map mask_count target_mask;
          log_probs = map (map log_softmax) logits
      in case masked_select targets target_mask of
        Inl e \<Rightarrow> Inl e
      | Inr targets' \<Rightarrow>
          (let loss =
                 (if reduce then
                    Scalar (ctc_loss_mean lib log_probs targets' logit_lengths target_lengths
                              blank_index)
                  else
                    PerExample
                      (map2 (\<lambda>a b. fdiv a (Fin (of_int b)))
                         (ctc_loss_none lib log_probs targets' logit_lengths target_lengths
                            blank_index)
                         target_lengths));
               n_invalid = int (length (filter (\<lambda>(l, t). l < t)
                                         (zip logit_lengths target_lengths)));
               warn = (if n_invalid > 0 then Some n_invalid else None)
           in if smoothing > 0 then
                (case smoothed_loss log_probs logit_mask of
                   Inl e \<Rightarrow> Inl e
                 | Inr sm \<Rightarrow>
                     Inr \<lparr>ctc_loss_value =
                            loss_map (\<lambda>l. fadd (fmul (Fin (1 - smoothing)) l)
                                                (fmul (Fin smoothing) sm)) loss,
                          n_invalid_samples = n_invalid, warning = warn\<rparr>)
              else Inr \<lparr>ctc_loss_value = loss, n_invalid_samples = n_invalid,
                        warning = warn\<rparr>))"

section \<open>The training forward pass of the CTC model\<close>

text \<open>
  \<^verbatim>\<open>NATransformerModel.forward\<close> of \<^verbatim>\<open>nat_ctc_sd.py\<close>, from the skeleton to the
  returned \<^verbatim>\<open>ret_val["ctc_loss"]["loss"]\<close>. \<open>dec prev_output_tokens\<close> is the decoder
  call. In cross-layer sampling mode \<open>sampled_ids sample_id\<close> is the result of
  \<^verbatim>\<open>torch.randint(num_decoder_layer, (batch_size * num_tokens,))\<close> in round
  \<open>sample_id\<close>, a layer index below \<open>num_decoder_layer\<close> for every position:
  \<^verbatim>\<open>
  output_logits_list = torch.stack(output_logits_list, dim=0)
  N_SAMPLE = self.args.num_cross_layer_sample
  ...
  all_sample_ctc_loss = 0
  for sample_id in range(N_SAMPLE):
      cross_layer_sampled_ids_ts = torch.randint(num_decoder_layer, (batch_size * num_tokens,), ...)
      output_logits_list = output_logits_list.view(num_decoder_layer, -1, num_vocab)
      gather_idx = cross_layer_sampled_ids_ts.unsqueeze(1).expand(-1, num_vocab).unsqueeze(0)
      gather_logits = output_logits_list.gather(0, gather_idx).view(batch_size, num_tokens, num_vocab)
      ctc_loss = self.sequence_ctc_loss_with_logits(logits=gather_logits, ...)
      all_sample_ctc_loss += ctc_loss
  ret_val = {"ctc_loss": {"loss": all_sample_ctc_loss / len(output_logits_list)}}
  \<close>
  \<^verbatim>\<open>len\<close> of the stacked (and viewed) tensor is its first dimension, the number of
  per-layer logits.
\<close>

definition gather_logits :: "logits list \<Rightarrow> nat list \<Rightarrow> nat \<Rightarrow> nat \<Rightarrow> logits" where
  "gather_logits output_logits_list ids batch_size num_tokens =
     map (\<lambda>b. map (\<lambda>t. output_logits_list ! (ids ! (b * num_tokens + t)) ! b ! t)
                  [0..<num_tokens])
         [0..<batch_size]"

fun sample_loop ::
  "(nat \<Rightarrow> error + ctc_result) \<Rightarrow> nat list \<Rightarrow> loss \<Rightarrow> error + loss" where
  "sample_loop body [] acc = Inr acc"
| "sample_loop body (sample_id # rest) acc =
     (case body sample_id of
        Inl e \<Rightarrow> Inl e
      | Inr r \<Rightarrow> sample_loop body rest (loss_add acc (ctc_loss_value r)))"

definition forward_ctc ::
  "args \<Rightarrow> dictionary \<Rightarrow> torch \<Rightarrow> int \<Rightarrow> (tokens \<Rightarrow> error + logits list) \<Rightarrow>
   (nat \<Rightarrow> nat list) \<Rightarrow> tokens \<Rightarrow> tokens \<Rightarrow> bool \<Rightarrow> error + loss" where
  "forward_ctc a d lib blank_index dec sampled_ids src_tokens tgt_tokens reduce =
     (case initialize_output_tokens_by_src_tokens a d src_tokens of
        Inl e \<Rightarrow> Inl e
      | Inr prev_output_tokens \<Rightarrow>
     (let prev_output_tokens_mask = map (map (\<lambda>t. t \<noteq> pad d)) prev_output_tokens in
     (case dec prev_output_tokens of
        Inl e \<Rightarrow> Inl e
      | Inr output_logits_list \<Rightarrow>
     (let target_mask = map (map (\<lambda>t. t \<noteq> pad d)) tgt_tokens in
      if num_cross_layer_sample a \<noteq> 0 then
        (if output_logits_list = [] then Inl RuntimeError
         else
           (let num_decoder_layer = length output_logits_list;
                num_tokens = length (hd prev_output_tokens);
                batch_size = length prev_output_tokens
            in case sample_loop
                      (\<lambda>sample_id.
                         sequence_ctc_loss_with_logits lib
                           (gather_logits output_logits_list (sampled_ids sample_id)
                              batch_size num_tokens)
                           prev_output_tokens_mask tgt_tokens target_mask blank_index
                           (label_smoothing a) reduce)
                      [0..<nat (num_cross_layer_sample a)] (Scalar (Fin 0)) of
                 Inl e \<Rightarrow> Inl e
               | Inr all_sample_ctc_loss \<Rightarrow>
                   Inr (loss_map (\<lambda>x. fdiv x (Fin (real num_decoder_layer)))
                          all_sample_ctc_loss)))
      else
        (case sample_loop
                (\<lambda>layer_idx.
                   sequence_ctc_loss_with_logits lib (output_logits_list ! layer_idx)
                     prev_output_tokens_mask tgt_tokens target_mask blank_index
                     (label_smoothing a) reduce)
                [0..<length output_logits_list] (Scalar (Fin 0)) of
           Inl e \<Rightarrow> Inl e
         | Inr all_layer_ctc_loss \<Rightarrow>
             (if output_logits_list = [] then Inl ZeroDivisionError
              else Inr (loss_map (\<lambda>x. fdiv x (Fin (real (length output_logits_list))))
                          all_layer_ctc_loss)))))))"

section \<open>Reading results back\<close>

text \<open>
  The non-pad lengths of the rows of the token tensor of a returned state (empty when
  the call raised), and the length offsets in the words of the specification,
  \<open>-(beam_size//2) \<dots> +(beam_size//2 - 1)\<close>.
\<close>

definition produced_lengths :: "dictionary \<Rightarrow> error + (heap \<times> DecoderOut) \<Rightarrow> int list" where
  "produced_lengths d r =
     (case r of
        Inl e \<Rightarrow> []
      | Inr (h, s) \<Rightarrow>
          (case get_int_tensor h (output_tokens s) of
             Inl e \<Rightarrow> []
           | Inr t \<Rightarrow> map (count_nonpad d) t))"

definition spec_beam_offsets :: "int \<Rightarrow> int list" where
  "spec_beam_offsets beam_size = [- (beam_size div 2) .. beam_size div 2 - 1]"

section \<open>A small decoder for the examples\<close>

text \<open>
  Two identity layers over one-dimensional embeddings: a token is embedded as its own
  id, the output head gives the two logits \<open>0\<close> and \<open>x\<close>, and the embedding table maps
  token 0 to \<open>0\<close> and token 1 to \<open>1\<close>. Feedback is by hard argmax.
\<close>

definition example_decoder :: decoder where
  "example_decoder =
     \<lparr>forward_embedding = (\<lambda>embedding_copy toks. map (map (\<lambda>t. [real_of_int t])) toks),
      output_layer = (\<lambda>x. map (map (\<lambda>v. [0, hd v])) x),
      embed_tokens_weight = [[0], [1]],
      softmax = (\<lambda>v. v),
      layers = [\<lambda>x. x, \<lambda>x. x],
      layer_norm = None,
      project_out_dim = None\<rparr>"

definition example_decoder_args :: decoder_args where
  "example_decoder_args = \<lparr>hard_argmax = True, yhat_temp = 1 / 10\<rparr>"

section \<open>Element-wise selection\<close>

text \<open>
  \<open>select2 x m y\<close> holds \<open>y\<close> where the mask is true and \<open>x\<close> elsewhere (torch's
  \<^verbatim>\<open>where(m, y, x)\<close>). It is what \<^verbatim>\<open>x.masked_scatter_(m, y[m])\<close> leaves in \<open>x\<close>
  (lemma \<open>masked_scatter_select\<close>).
\<close>

definition select2 :: "'a list list \<Rightarrow> bool list list \<Rightarrow> 'a list list \<Rightarrow> 'a list list" where
  "select2 x m y =
     map (\<lambda>(xr, mr, yr). map (\<lambda>(e, b, v). if b then v else e) (zip xr (zip mr yr)))
         (zip x (zip m y))"

section \<open>A small decoder state for the examples\<close>

text \<open>
  One example of four positions, the last one padding, with its score tensor and an
  empty history list; a decoder whose single logits entry prefers token 5 everywhere.
\<close>

definition example_dictionary :: dictionary where
  "example_dictionary = \<lparr>pad = 1, bos = 0, eos = 2, unk = 3\<rparr>"

definition example_heap :: heap where
  "example_heap =
     \<lparr>store = [0 \<mapsto> IntTensor [[0, 3, 2, 1]],
               1 \<mapsto> FloatTensor [[0, 0, 0, 0]],
               2 \<mapsto> PyList []],
      fresh = 3\<rparr>"

definition example_state :: DecoderOut where
  "example_state =
     \<lparr>output_tokens = 0, output_scores = 1, attn = None, step = 0, max_step = 0,
      history = Some 2\<rparr>"

definition example_dec :: "bool \<Rightarrow> tokens \<Rightarrow> nat \<Rightarrow> error + logits list" where
  "example_dec normalise toks stp = Inr [map (map (\<lambda>t. [0, 0, 0, 0, 0, 1 / 2])) toks]"

section \<open>A small CTC training call for the examples\<close>

text \<open>
  One source token, upsampled twice, so the skeleton is \<^verbatim>\<open>bos eos\<close>; a decoder with
  two logits entries over a vocabulary of five (the blank is symbol 4); one cross-layer sample, which takes
  position 0 from entry 0 and position 1 from entry 1; a tensor library whose CTC loss
  is 6 for every example.
\<close>

definition example_ctc_args :: args where
  "example_ctc_args =
     \<lparr>copy_src_token = False, src_upsample_scale = 2, num_cross_layer_sample = 1,
      label_smoothing = 0\<rparr>"

definition example_torch :: torch where
  "example_torch =
     \<lparr>ctc_loss_mean = (\<lambda>log_probs targets logit_lengths target_lengths blank. Fin 6),
      ctc_loss_none = (\<lambda>log_probs targets logit_lengths target_lengths blank.
                         map (\<lambda>l. Fin 6) target_lengths)\<rparr>"

definition example_ctc_dec :: "tokens \<Rightarrow> error + logits list" where
  "example_ctc_dec toks = Inr [map (map (\<lambda>t. [1, 0, 0, 0, 0])) toks, map (map (\<lambda>t. [0, 1, 0, 0, 0])) toks]"

definition example_sampled_ids :: "nat \<Rightarrow> nat list" where
  "example_sampled_ids sample_id = [0, 1]"

section \<open>Properties of the skeleton\<close>

lemma fold_max_ge_init: "(x::int) \<le> fold max xs x"
proof (induction xs arbitrary: x)
  case Nil
  show ?case by simp
next
  case (Cons y ys)
  have "x \<le> max y x" by simp
  also have "max y x \<le> fold max ys (max y x)" by (rule Cons.IH)
  finally show ?case by simp
qed

lemma fold_max_ge_elem: "y \<in> set xs \<Longrightarrow> (y::int) \<le> fold max xs x"
proof (induction xs arbitrary: x)
  case Nil
  then show ?case by simp
next
  case (Cons z zs)
  show ?case
  proof (cases "y = z")
    case True
    have "y \<le> max z x" using True by simp
    also have "\<dots> \<le> fold max zs (max z x)" by (rule fold_max_ge_init)
    finally show ?thesis by simp
  next
    case False
    with Cons.prems have "y \<in> set zs" by simp
    then show ?thesis using Cons.IH by simp
  qed
qed

lemma fold_max_eq_Max: "fold max xs (x::int) = Max (set (x # xs))"
  by (simp only: Max.set_eq_fold)

lemma tensor_max_Inr: "xs \<noteq> [] \<Longrightarrow> tensor_max xs = Inr (Max (set xs))"
proof (cases xs)
  case Nil
  assume "xs \<noteq> []"
  with Nil show ?thesis by simp
next
  case (Cons y ys)
  have "tensor_max (y # ys) = Inr (fold max ys y)" by simp
  also have "fold max ys y = Max (set (y # ys))" by (rule fold_max_eq_Max)
  finally show ?thesis using Cons by (simp only:)
qed

lemma tensor_max_upper: "tensor_max xs = Inr m \<Longrightarrow> y \<in> set xs \<Longrightarrow> y \<le> m"
  by (cases xs) (auto simp: fold_max_ge_elem fold_max_ge_init)

lemma length_skeleton_row [simp]: "length (skeleton_row d n len) = n"
  by (simp add: skeleton_row_def)

lemma skeleton_row_bos:
  "2 \<le> len \<Longrightarrow> len \<le> int n \<Longrightarrow> skeleton_row d n len ! 0 = bos d"
  by (simp add: skeleton_row_def nth_list_update)

lemma skeleton_row_eos:
  "2 \<le> len \<Longrightarrow> len \<le> int n \<Longrightarrow> skeleton_row d n len ! nat (len - 1) = eos d"
  by (simp add: skeleton_row_def nth_list_update)

lemma skeleton_row_unk:
  "2 \<le> len \<Longrightarrow> len \<le> int n \<Longrightarrow> 0 < t \<Longrightarrow> int t < len - 1 \<Longrightarrow>
     skeleton_row d n len ! t = unk d"
  by (simp add: skeleton_row_def nth_list_update)

lemma skeleton_row_pad:
  "2 \<le> len \<Longrightarrow> len \<le> int n \<Longrightarrow> len \<le> int t \<Longrightarrow> t < n \<Longrightarrow>
     skeleton_row d n len ! t = pad d"
  by (simp add: skeleton_row_def nth_list_update)

lemma skeleton_row_below:
  "2 \<le> len \<Longrightarrow> len \<le> int n \<Longrightarrow> int t < len \<Longrightarrow>
     skeleton_row d n len ! t \<in> {bos d, eos d, unk d}"
  by (simp add: skeleton_row_def nth_list_update)

lemma skeleton_writes_in_range:
  "2 \<le> len \<Longrightarrow> len \<le> int n \<Longrightarrow> 0 < n \<and> nat (len - 1) < n"
  by auto

lemma Max_clamp: "xs \<noteq> [] \<Longrightarrow> Max (set (map (max (2::int)) xs)) = max 2 (Max (set xs))"
proof -
  assume ne: "xs \<noteq> []"
  have "max 2 (Max (set xs)) = Max (max 2 ` set xs)"
    by (rule Max.hom_commute) (use ne in \<open>auto simp: max_def\<close>)
  then show ?thesis by simp
qed

lemma int64_id: "- (2 ^ 63) \<le> x \<Longrightarrow> x < 2 ^ 63 \<Longrightarrow> int64 x = x"
  by (simp add: int64_def)

lemma length_tgt_of_src_no_wrap:
  assumes "\<forall>row \<in> set src.
             - (2 ^ 63) \<le> count_nonpad d row * src_upsample_scale a \<and>
             count_nonpad d row * src_upsample_scale a < 2 ^ 63"
  shows "length_tgt_of_src a d src =
           map (max 2) (map (\<lambda>row. count_nonpad d row * src_upsample_scale a) src)"
  using assms by (simp add: length_tgt_of_src_def clamp_min_def int64_id)

lemma length_tgt_of_src_length [simp]: "length (length_tgt_of_src a d src) = length src"
  by (simp add: length_tgt_of_src_def clamp_min_def)

lemma build_skeleton_rows:
  assumes ne: "lens \<noteq> []" and two: "\<forall>l \<in> set lens. 2 \<le> l"
  shows "\<exists>out. build_skeleton d lens = Inr out \<and> length out = length lens \<and>
      (\<forall>b < length lens.
          out ! b = skeleton_row d (nat (Max (set lens))) (lens ! b) \<and>
          2 \<le> lens ! b \<and> lens ! b \<le> int (nat (Max (set lens))))"
proof -
  have tm: "tensor_max lens = Inr (Max (set lens))" using ne by (rule tensor_max_Inr)
  have "\<forall>b < length lens. 2 \<le> lens ! b \<and> lens ! b \<le> int (nat (Max (set lens)))"
  proof (intro allI impI)
    fix b assume b: "b < length lens"
    then have m: "lens ! b \<in> set lens" by simp
    then have "lens ! b \<le> Max (set lens)" by simp
    moreover have "2 \<le> lens ! b" using two m by blast
    ultimately show "2 \<le> lens ! b \<and> lens ! b \<le> int (nat (Max (set lens)))" by simp
  qed
  then show ?thesis by (simp add: build_skeleton_def tm)
qed

text \<open>On a batch without examples \<^verbatim>\<open>length_tgt.max()\<close> raises.\<close>

lemma initialize_output_tokens_by_src_tokens_empty_batch:
  "\<not> copy_src_token a \<Longrightarrow> initialize_output_tokens_by_src_tokens a d [] = Inl RuntimeError"
  by (simp add: initialize_output_tokens_by_src_tokens_def build_skeleton_def
      length_tgt_of_src_def clamp_min_def)

subsection \<open>Claim C5: the skeleton of the length initialiser\<close>

text \<open>
  C5 (as amended). For every batch of source tokens with at least one example, an
  upsample scale that is an int64 value and products (non-pad source count times
  upsample scale) that stay within int64, skeleton initialisation (when
  \<^verbatim>\<open>copy_src_token\<close> is off) returns a \<open>[B, T]\<close> tensor whose width \<open>T\<close> is the
  greatest of the products, clamped to at least 2. Writing \<open>L\<close> for the clamped target
  length of row \<open>b\<close>, the row has \<^verbatim>\<open>bos\<close> at column 0, \<^verbatim>\<open>eos\<close> at column \<open>L - 1\<close>,
  \<^verbatim>\<open>unk\<close> at the columns strictly between, \<^verbatim>\<open>pad\<close> at every column from \<open>L\<close> on, and,
  the special symbols being distinct from \<^verbatim>\<open>pad\<close>, no \<^verbatim>\<open>pad\<close> below \<open>L\<close>. In copy mode
  with an upsample scale of at most 1 the source tokens come back unchanged, for every
  batch.
\<close>

theorem initialize_output_tokens_by_src_tokens_skeleton:
  shows "(\<not> copy_src_token a \<and> src_tokens \<noteq> [] \<and>
          - (2 ^ 63) \<le> src_upsample_scale a \<and> src_upsample_scale a < 2 ^ 63 \<and>
          (\<forall>row \<in> set src_tokens.
             - (2 ^ 63) \<le> count_nonpad d row * src_upsample_scale a \<and>
             count_nonpad d row * src_upsample_scale a < 2 ^ 63) \<longrightarrow>
           (\<exists>out. initialize_output_tokens_by_src_tokens a d src_tokens = Inr out \<and>
              length out = length src_tokens \<and>
              (\<forall>b < length src_tokens.
                 length (out ! b) =
                   nat (max 2 (Max (set (map (\<lambda>row. count_nonpad d row * src_upsample_scale a)
                                             src_tokens)))) \<and>
                 out ! b ! 0 = bos d \<and>
                 out ! b ! nat (max 2 (count_nonpad d (src_tokens ! b) * src_upsample_scale a) - 1)
                   = eos d \<and>
                 (\<forall>t. 0 < t \<and>
                       int t < max 2 (count_nonpad d (src_tokens ! b) * src_upsample_scale a) - 1
                       \<longrightarrow> out ! b ! t = unk d) \<and>
                 (\<forall>t. max 2 (count_nonpad d (src_tokens ! b) * src_upsample_scale a) \<le> int t \<and>
                       t < length (out ! b) \<longrightarrow> out ! b ! t = pad d) \<and>
                 (pad d \<notin> {bos d, eos d, unk d} \<longrightarrow>
                    (\<forall>t. int t < max 2 (count_nonpad d (src_tokens ! b) * src_upsample_scale a)
                          \<longrightarrow> out ! b ! t \<noteq> pad d)))))
         \<and> (copy_src_token a \<and> src_upsample_scale a \<le> 1 \<longrightarrow>
              initialize_output_tokens_by_src_tokens a d src_tokens = Inr src_tokens)"
    (is "(_ \<longrightarrow> ?SKEL) \<and> _")
proof (intro conjI impI)
  assume "copy_src_token a \<and> src_upsample_scale a \<le> 1"
  then show "initialize_output_tokens_by_src_tokens a d src_tokens = Inr src_tokens"
    by (simp add: initialize_output_tokens_by_src_tokens_def)
next
  assume hyp: "\<not> copy_src_token a \<and> src_tokens \<noteq> [] \<and>
          - (2 ^ 63) \<le> src_upsample_scale a \<and> src_upsample_scale a < 2 ^ 63 \<and>
          (\<forall>row \<in> set src_tokens.
             - (2 ^ 63) \<le> count_nonpad d row * src_upsample_scale a \<and>
             count_nonpad d row * src_upsample_scale a < 2 ^ 63)"
  then have nc: "\<not> copy_src_token a" and ne: "src_tokens \<noteq> []"
    and sc: "- (2 ^ 63) \<le> src_upsample_scale a" "src_upsample_scale a < 2 ^ 63"
    and bnd: "\<forall>row \<in> set src_tokens.
             - (2 ^ 63) \<le> count_nonpad d row * src_upsample_scale a \<and>
             count_nonpad d row * src_upsample_scale a < 2 ^ 63"
    by blast+
  let ?raw = "map (\<lambda>row. count_nonpad d row * src_upsample_scale a) src_tokens"
  let ?lens = "length_tgt_of_src a d src_tokens"
  let ?T = "nat (Max (set ?lens))"
  have lens_eq: "?lens = map (max 2) ?raw"
    using bnd by (rule length_tgt_of_src_no_wrap)
  have lne: "?lens \<noteq> []" using ne by (simp add: length_tgt_of_src_def clamp_min_def)
  have two: "\<forall>l \<in> set ?lens. 2 \<le> l" by (auto simp: length_tgt_of_src_def clamp_min_def)
  have rne: "?raw \<noteq> []" using ne by simp
  have T_eq: "Max (set ?lens) = max 2 (Max (set ?raw))"
    unfolding lens_eq using rne by (rule Max_clamp)
  from build_skeleton_rows [OF lne two, of d]
  obtain out where out: "build_skeleton d ?lens = Inr out" "length out = length ?lens"
    and rows: "\<forall>b < length ?lens. out ! b = skeleton_row d ?T (?lens ! b) \<and>
                  2 \<le> ?lens ! b \<and> ?lens ! b \<le> int ?T"
    by blast
  have init: "initialize_output_tokens_by_src_tokens a d src_tokens = Inr out"
    using nc sc out(1) by (simp add: initialize_output_tokens_by_src_tokens_def)
  have per_row: "length (out ! b) = nat (max 2 (Max (set ?raw))) \<and>
       out ! b ! 0 = bos d \<and>
       out ! b ! nat (max 2 (count_nonpad d (src_tokens ! b) * src_upsample_scale a) - 1) = eos d \<and>
       (\<forall>t. 0 < t \<and> int t < max 2 (count_nonpad d (src_tokens ! b) * src_upsample_scale a) - 1
             \<longrightarrow> out ! b ! t = unk d) \<and>
       (\<forall>t. max 2 (count_nonpad d (src_tokens ! b) * src_upsample_scale a) \<le> int t \<and>
             t < length (out ! b) \<longrightarrow> out ! b ! t = pad d) \<and>
       (pad d \<notin> {bos d, eos d, unk d} \<longrightarrow>
          (\<forall>t. int t < max 2 (count_nonpad d (src_tokens ! b) * src_upsample_scale a)
                \<longrightarrow> out ! b ! t \<noteq> pad d))"
    if b: "b < length src_tokens" for b
  proof -
    let ?L = "max 2 (count_nonpad d (src_tokens ! b) * src_upsample_scale a)"
    have Lb: "?lens ! b = ?L" using b unfolding lens_eq by simp
    have b': "b < length ?lens" using b by simp
    from rows b' have "out ! b = skeleton_row d ?T (?lens ! b) \<and>
                  2 \<le> ?lens ! b \<and> ?lens ! b \<le> int ?T" by blast
    then have row: "out ! b = skeleton_row d ?T ?L" and L2: "2 \<le> ?L" and LT: "?L \<le> int ?T"
      unfolding Lb by blast+
    have len: "length (out ! b) = nat (max 2 (Max (set ?raw)))"
      by (simp only: row length_skeleton_row T_eq)
    have below: "out ! b ! t \<noteq> pad d"
      if "pad d \<notin> {bos d, eos d, unk d}" "int t < ?L" for t
    proof -
      have "out ! b ! t \<in> {bos d, eos d, unk d}"
        unfolding row using L2 LT that(2) by (rule skeleton_row_below)
      with that(1) show ?thesis by auto
    qed
    show ?thesis
    proof (intro conjI allI impI)
      show "length (out ! b) = nat (max 2 (Max (set ?raw)))" by (rule len)
      show "out ! b ! 0 = bos d" unfolding row using L2 LT by (rule skeleton_row_bos)
      show "out ! b ! nat (?L - 1) = eos d" unfolding row using L2 LT by (rule skeleton_row_eos)
    next
      fix t assume "0 < t \<and> int t < ?L - 1"
      then show "out ! b ! t = unk d" unfolding row using L2 LT by (simp add: skeleton_row_unk)
    next
      fix t assume "?L \<le> int t \<and> t < length (out ! b)"
      then have "?L \<le> int t" "t < ?T" by (simp_all add: row)
      then show "out ! b ! t = pad d" unfolding row using L2 LT by (simp add: skeleton_row_pad)
    next
      fix t assume "pad d \<notin> {bos d, eos d, unk d}" "int t < ?L"
      then show "out ! b ! t \<noteq> pad d" by (rule below)
    qed
  qed
  show ?SKEL
    using init out(2) per_row by (intro exI [of _ out]) simp
qed

theorem initialize_output_tokens_by_src_tokens_skeleton_witness:
  "[[5, 6, 7, 1], [5, 1, 1, 1 :: int]] \<noteq> [] \<and>
   - (2 ^ 63) \<le> (3 * 2 :: int) \<and> (3 * 2 :: int) < 2 ^ 63 \<and>
   - (2 ^ 63) \<le> (1 * 2 :: int) \<and> (1 * 2 :: int) < 2 ^ 63 \<and>
   (\<exists>out. initialize_output_tokens_by_src_tokens
             \<lparr>copy_src_token = False, src_upsample_scale = 2,
              num_cross_layer_sample = 0, label_smoothing = 0\<rparr>
             \<lparr>pad = 1, bos = 0, eos = 2, unk = 3\<rparr>
             [[5, 6, 7, 1], [5, 1, 1, 1]] = Inr out \<and>
          length out = 2 \<and> length (out ! 0) = 6 \<and> length (out ! 1) = 6 \<and>
          out ! 0 ! 0 = 0 \<and> out ! 0 ! 5 = 2 \<and>
          out ! 1 ! 0 = 0 \<and> out ! 1 ! 1 = 2 \<and> out ! 1 ! 2 = 1)"
proof -
  let ?a = "\<lparr>copy_src_token = False, src_upsample_scale = 2,
              num_cross_layer_sample = 0, label_smoothing = 0\<rparr>"
  let ?d = "\<lparr>pad = 1, bos = 0, eos = 2, unk = 3\<rparr>"
  let ?src = "[[5, 6, 7, 1], [5, 1, 1, 1 :: int]]"
  have hyp: "\<not> copy_src_token ?a \<and> ?src \<noteq> [] \<and>
          - (2 ^ 63) \<le> src_upsample_scale ?a \<and> src_upsample_scale ?a < 2 ^ 63 \<and>
          (\<forall>row \<in> set ?src.
             - (2 ^ 63) \<le> count_nonpad ?d row * src_upsample_scale ?a \<and>
             count_nonpad ?d row * src_upsample_scale ?a < 2 ^ 63)"
    by (simp add: count_nonpad_def)
  from initialize_output_tokens_by_src_tokens_skeleton
         [where a = ?a and d = ?d and src_tokens = ?src, THEN conjunct1, rule_format, OF hyp]
  obtain out where init: "initialize_output_tokens_by_src_tokens ?a ?d ?src = Inr out"
    and len: "length out = length ?src"
    and rows: "\<forall>b < length ?src.
                 length (out ! b) =
                   nat (max 2 (Max (set (map (\<lambda>row. count_nonpad ?d row * src_upsample_scale ?a)
                                             ?src)))) \<and>
                 out ! b ! 0 = bos ?d \<and>
                 out ! b ! nat (max 2 (count_nonpad ?d (?src ! b) * src_upsample_scale ?a) - 1)
                   = eos ?d \<and>
                 (\<forall>t. 0 < t \<and>
                       int t < max 2 (count_nonpad ?d (?src ! b) * src_upsample_scale ?a) - 1
                       \<longrightarrow> out ! b ! t = unk ?d) \<and>
                 (\<forall>t. max 2 (count_nonpad ?d (?src ! b) * src_upsample_scale ?a) \<le> int t \<and>
                       t < length (out ! b) \<longrightarrow> out ! b ! t = pad ?d) \<and>
                 (pad ?d \<notin> {bos ?d, eos ?d, unk ?d} \<longrightarrow>
                    (\<forall>t. int t < max 2 (count_nonpad ?d (?src ! b) * src_upsample_scale ?a)
                          \<longrightarrow> out ! b ! t \<noteq> pad ?d))"
    by auto
  have r0: "length (out ! 0) = 6 \<and> out ! 0 ! 0 = 0 \<and> out ! 0 ! 5 = 2"
    using rows [rule_format, of 0] by (simp add: count_nonpad_def)
  have r1: "length (out ! 1) = 6 \<and> out ! 1 ! 0 = 0 \<and> out ! 1 ! 1 = 2 \<and> out ! 1 ! 2 = 1"
    using rows [rule_format, of 1] by (simp add: count_nonpad_def)
  show ?thesis using init len r0 r1 by simp
qed

text \<open>
  The claim as first worded speaks of every batch. A batch without examples makes
  \<^verbatim>\<open>length_tgt.clamp_(min=2).max()\<close> raise. With the scale \<open>2 ^ 62\<close> and four source
  tokens the int64 product wraps around to 0, so the code returns a skeleton of width 2,
  the row \<^verbatim>\<open>[bos, eos]\<close>, while the product clamped to at least 2 is \<open>2 ^ 64\<close>.
\<close>

theorem initialize_output_tokens_by_src_tokens_skeleton_counterexample:
  "initialize_output_tokens_by_src_tokens
     \<lparr>copy_src_token = False, src_upsample_scale = 2,
      num_cross_layer_sample = 0, label_smoothing = 0\<rparr>
     \<lparr>pad = 1, bos = 0, eos = 2, unk = 3\<rparr> [] = Inl RuntimeError \<and>
   initialize_output_tokens_by_src_tokens
     \<lparr>copy_src_token = False, src_upsample_scale = 2 ^ 62,
      num_cross_layer_sample = 0, label_smoothing = 0\<rparr>
     \<lparr>pad = 1, bos = 0, eos = 2, unk = 3\<rparr> [[5, 6, 7, 8]] = Inr [[0, 2]] \<and>
   max 2 (Max (set (map (\<lambda>row. count_nonpad \<lparr>pad = 1, bos = 0, eos = 2, unk = 3\<rparr> row * 2 ^ 62)
                        [[5, 6, 7, 8]]))) = 2 ^ 64"
proof -
  have k: "[0..<2] = [0, 1::nat]" by code_simp
  show ?thesis
    by (simp add: initialize_output_tokens_by_src_tokens_def build_skeleton_def
        length_tgt_of_src_def clamp_min_def int64_def count_nonpad_def skeleton_row_def k)
qed

lemma skeleton_row_eq:
  assumes L2: "2 \<le> len" and Ln: "len \<le> int n"
  shows "skeleton_row d n len =
           bos d # replicate (nat len - 2) (unk d) @ eos d # replicate (n - nat len) (pad d)"
proof (rule nth_equalityI)
  show "length (skeleton_row d n len) =
        length (bos d # replicate (nat len - 2) (unk d) @ eos d # replicate (n - nat len) (pad d))"
    using L2 Ln by simp
next
  fix t assume "t < length (skeleton_row d n len)"
  then have tn: "t < n" by simp
  consider "t = 0" | "0 < t" "int t < len - 1" | "int t = len - 1" | "len \<le> int t"
    by linarith
  then show "skeleton_row d n len ! t =
        (bos d # replicate (nat len - 2) (unk d) @ eos d # replicate (n - nat len) (pad d)) ! t"
  proof cases
    case 1
    then show ?thesis using skeleton_row_bos [OF L2 Ln] by simp
  next
    case 2
    then have "t - 1 < nat len - 2" by linarith
    then show ?thesis using 2 skeleton_row_unk [OF L2 Ln 2]
      by (simp add: nth_Cons' nth_append)
  next
    case 3
    then have t: "t = nat (len - 1)" by simp
    have "t - 1 = nat len - 2" using 3 L2 by linarith
    then show ?thesis using 3 L2 skeleton_row_eos [OF L2 Ln] unfolding t [symmetric]
      by (simp add: nth_Cons' nth_append)
  next
    case 4
    then have a: "\<not> t - 1 < nat len - 2" "t \<noteq> 0" using L2 by linarith+
    have b: "t - 1 - (nat len - 2) \<noteq> 0" using 4 L2 by linarith
    have c: "t - 1 - (nat len - 2) - 1 < n - nat len" using 4 L2 tn by linarith
    show ?thesis using skeleton_row_pad [OF L2 Ln 4 tn] a b c
      by (simp add: nth_Cons' nth_append)
  qed
qed

lemma count_nonpad_skeleton_row:
  assumes "2 \<le> len" "len \<le> int n" "pad d \<notin> {bos d, eos d, unk d}"
  shows "count_nonpad d (skeleton_row d n len) = len"
  using assms by (simp add: skeleton_row_eq count_nonpad_def)

lemma build_skeleton_counts:
  assumes ne: "lens \<noteq> []" and two: "\<forall>l \<in> set lens. 2 \<le> l"
    and dist: "pad d \<notin> {bos d, eos d, unk d}"
  shows "\<exists>out. build_skeleton d lens = Inr out \<and> length out = length lens \<and>
           map (count_nonpad d) out = lens"
proof -
  from build_skeleton_rows [OF ne two, of d]
  obtain out where out: "build_skeleton d lens = Inr out" "length out = length lens"
    and rows: "\<forall>b < length lens.
          out ! b = skeleton_row d (nat (Max (set lens))) (lens ! b) \<and>
          2 \<le> lens ! b \<and> lens ! b \<le> int (nat (Max (set lens)))"
    by blast
  have "map (count_nonpad d) out = lens"
  proof (rule nth_equalityI)
    show "length (map (count_nonpad d) out) = length lens" using out(2) by simp
  next
    fix i assume "i < length (map (count_nonpad d) out)"
    then have i: "i < length lens" using out(2) by simp
    with rows have r: "out ! i = skeleton_row d (nat (Max (set lens))) (lens ! i)"
      and b: "2 \<le> lens ! i" "lens ! i \<le> int (nat (Max (set lens)))" by blast+
    have "count_nonpad d (out ! i) = lens ! i"
      unfolding r using b dist by (rule count_nonpad_skeleton_row)
    then show "map (count_nonpad d) out ! i = lens ! i" using i out(2) by simp
  qed
  with out show ?thesis by blast
qed

lemma beam_lengths_explicit:
  "beam_lengths lens (map int [0..<k]) beam_size =
     concat (map (\<lambda>l. map (\<lambda>j. max 2 (l + int j - beam_size div 2)) [0..<k]) lens)"
  by (simp add: beam_lengths_def clamp_min_def map_concat comp_def)

lemma beam_offsets_range:
  "map (\<lambda>j. int j - c) [0..<n] = [- c .. int n - 1 - c]"
proof (rule nth_equalityI)
  show "length (map (\<lambda>j. int j - c) [0..<n]) = length [- c .. int n - 1 - c]" by simp
next
  fix i assume "i < length (map (\<lambda>j. int j - c) [0..<n])"
  then have i: "i < n" by simp
  then have "[- c .. int n - 1 - c] ! i = - c + int i" by (intro nth_upto) simp
  then show "map (\<lambda>j. int j - c) [0..<n] ! i = [- c .. int n - 1 - c] ! i" using i by simp
qed

subsection \<open>Claim C8: the length beam\<close>

text \<open>
  C8 (as amended). For every decoder state whose token tensor has at least one row, and
  every \<open>beam_size \<ge> 1\<close>, \<^verbatim>\<open>regenerate_length_beam\<close> returns a state with
  \<open>beam_size\<close> rows for every original row; the rows of example \<open>b\<close> have the
  non-pad lengths \<open>max 2 (len b + j - beam_size div 2)\<close> for \<open>j = 0, \<dots>, beam_size - 1\<close>,
  so the offsets run from \<open>-(beam_size div 2)\<close> to \<open>beam_size - 1 - beam_size div 2\<close>
  (that is \<open>beam_size div 2 - 1\<close> for an even and \<open>beam_size div 2\<close> for an odd beam
  size). With \<open>beam_size = 3\<close> and length 6 the lengths are 5, 6, 7.
\<close>

theorem regenerate_length_beam_lengths:
  assumes tok: "get_int_tensor h (output_tokens s) = Inr toks"
    and ne: "toks \<noteq> []"
    and beam: "1 \<le> beam_size"
    and dist: "pad d \<notin> {bos d, eos d, unk d}"
  shows "\<exists>h' s' new.
           regenerate_length_beam d h s beam_size = Inr (h', s') \<and>
           get_int_tensor h' (output_tokens s') = Inr new \<and>
           length new = length toks * nat beam_size \<and>
           map (count_nonpad d) new =
             concat (map (\<lambda>row. map (\<lambda>j. max 2 (count_nonpad d row + int j - beam_size div 2))
                                     [0..<nat beam_size]) toks) \<and>
           map (\<lambda>j. int j - beam_size div 2) [0..<nat beam_size] =
             [- (beam_size div 2) .. beam_size - 1 - beam_size div 2]"
proof -
  let ?k = "nat beam_size"
  let ?lens = "beam_lengths (map (count_nonpad d) toks) (map int [0..<?k]) beam_size"
  have ar: "new_arange beam_size = Inr (map int [0..<?k])"
    using beam by (simp add: new_arange_def)
  have expl: "?lens = concat (map (\<lambda>row. map (\<lambda>j. max 2 (count_nonpad d row + int j - beam_size div 2))
                                     [0..<?k]) toks)"
    by (simp add: beam_lengths_explicit comp_def)
  have len: "length ?lens = length toks * ?k"
    unfolding expl by (simp add: length_concat comp_def sum_list_triv)
  have lne: "?lens \<noteq> []"
  proof
    assume "?lens = []"
    then have "length ?lens = 0" by simp
    with len ne beam show False by simp
  qed
  have two: "\<forall>l \<in> set ?lens. 2 \<le> l" by (auto simp: beam_lengths_def clamp_min_def)
  from build_skeleton_counts [OF lne two dist]
  obtain out where out: "build_skeleton d ?lens = Inr out" "length out = length ?lens"
    "map (count_nonpad d) out = ?lens" by blast
  let ?h1 = "fst (alloc h (IntTensor out))"
  let ?h2 = "fst (alloc ?h1 (FloatTensor (map (map (\<lambda>_. 0)) out)))"
  let ?s' = "s\<lparr>output_tokens := fresh h, output_scores := Suc (fresh h)\<rparr>"
  have run: "regenerate_length_beam d h s beam_size = Inr (?h2, ?s')"
    by (simp add: regenerate_length_beam_def tok ar out(1) alloc_def)
  have rd: "get_int_tensor ?h2 (output_tokens ?s') = Inr out"
    by (simp add: get_int_tensor_def alloc_def)
  have off: "map (\<lambda>j. int j - beam_size div 2) [0..<?k] =
             [- (beam_size div 2) .. beam_size - 1 - beam_size div 2]"
    using beam by (simp add: beam_offsets_range)
  show ?thesis
    using run rd out(2,3) len expl off by (intro exI [of _ ?h2] exI [of _ ?s'] exI [of _ out]) simp
qed

theorem regenerate_length_beam_lengths_witness:
  "get_int_tensor
     \<lparr>store = [0 \<mapsto> IntTensor [[0, 3, 3, 3, 3, 2]], 1 \<mapsto> FloatTensor [[0, 0, 0, 0, 0, 0]]],
      fresh = 2\<rparr>
     (output_tokens \<lparr>output_tokens = 0, output_scores = 1, attn = None, step = 0,
                     max_step = 0, history = None\<rparr>) = Inr [[0, 3, 3, 3, 3, 2]] \<and>
   [[0, 3, 3, 3, 3, 2 :: int]] \<noteq> [] \<and> (1 :: int) \<le> 3 \<and>
   (\<exists>h' s' new.
      regenerate_length_beam \<lparr>pad = 1, bos = 0, eos = 2, unk = 3\<rparr>
        \<lparr>store = [0 \<mapsto> IntTensor [[0, 3, 3, 3, 3, 2]], 1 \<mapsto> FloatTensor [[0, 0, 0, 0, 0, 0]]],
         fresh = 2\<rparr>
        \<lparr>output_tokens = 0, output_scores = 1, attn = None, step = 0,
         max_step = 0, history = None\<rparr> 3 = Inr (h', s') \<and>
      get_int_tensor h' (output_tokens s') = Inr new \<and>
      length new = 3 \<and>
      map (count_nonpad \<lparr>pad = 1, bos = 0, eos = 2, unk = 3\<rparr>) new = [5, 6, 7])"
proof -
  let ?d = "\<lparr>pad = 1, bos = 0, eos = 2, unk = 3\<rparr>"
  let ?h = "\<lparr>store = [0 \<mapsto> IntTensor [[0, 3, 3, 3, 3, 2]],
                       1 \<mapsto> FloatTensor [[0, 0, 0, 0, 0, 0]]], fresh = 2\<rparr>"
  let ?s = "\<lparr>output_tokens = 0, output_scores = 1, attn = None, step = 0,
            max_step = 0, history = None\<rparr>"
  have tok: "get_int_tensor ?h (output_tokens ?s) = Inr [[0, 3, 3, 3, 3, 2]]"
    by (simp add: get_int_tensor_def)
  have ne: "[[0, 3, 3, 3, 3, 2 :: int]] \<noteq> []" by simp
  have beam: "(1 :: int) \<le> 3" by simp
  have dist: "pad ?d \<notin> {bos ?d, eos ?d, unk ?d}" by simp
  have k3: "[0..<3] = [0, 1, 2::nat]" by code_simp
  have k: "[0..<nat 3] = [0, 1, 2]" using k3 by simp
  from regenerate_length_beam_lengths [OF tok ne beam dist]
  obtain h' s' new where
    "regenerate_length_beam ?d ?h ?s 3 = Inr (h', s')"
    "get_int_tensor h' (output_tokens s') = Inr new"
    "length new = length [[0, 3, 3, 3, 3, 2 :: int]] * nat 3"
    "map (count_nonpad ?d) new =
       concat (map (\<lambda>row. map (\<lambda>j. max 2 (count_nonpad ?d row + int j - 3 div 2))
                                     [0..<nat 3]) [[0, 3, 3, 3, 3, 2]])"
    by blast
  then have "regenerate_length_beam ?d ?h ?s 3 = Inr (h', s') \<and>
      get_int_tensor h' (output_tokens s') = Inr new \<and>
      length new = 3 \<and> map (count_nonpad ?d) new = [5, 6, 7]"
    by (simp add: k k3 count_nonpad_def)
  then have ex: "\<exists>h' s' new. regenerate_length_beam ?d ?h ?s 3 = Inr (h', s') \<and>
      get_int_tensor h' (output_tokens s') = Inr new \<and>
      length new = 3 \<and> map (count_nonpad ?d) new = [5, 6, 7]"
    by (intro exI)
  show ?thesis by (intro conjI tok ne beam ex)
qed

text \<open>
  The offsets as the specification words them, \<open>-(beam_size//2) \<dots> +(beam_size//2 - 1)\<close>,
  are one short for an odd beam size: for \<open>beam_size = 3\<close> and length 6 they give the
  lengths 5, 6 while the code produces 5, 6, 7.
\<close>

theorem regenerate_length_beam_offsets_counterexample:
  "produced_lengths \<lparr>pad = 1, bos = 0, eos = 2, unk = 3\<rparr>
     (regenerate_length_beam \<lparr>pad = 1, bos = 0, eos = 2, unk = 3\<rparr>
        \<lparr>store = [0 \<mapsto> IntTensor [[0, 3, 3, 3, 3, 2]], 1 \<mapsto> FloatTensor [[0, 0, 0, 0, 0, 0]]],
         fresh = 2\<rparr>
        \<lparr>output_tokens = 0, output_scores = 1, attn = None, step = 0,
         max_step = 0, history = None\<rparr> 3) = [5, 6, 7] \<and>
   map ((+) 6) (spec_beam_offsets 3) = [5, 6]"
proof -
  have k3: "[0..<3] = [0, 1, 2::nat]" by code_simp
  have k: "[0..<nat 3] = [0, 1, 2]" using k3 by simp
  have u: "[- 1 .. 0 :: int] = [- 1, 0]" by (simp add: upto_rec1)
  show ?thesis
    by (simp add: produced_lengths_def regenerate_length_beam_def get_int_tensor_def
        new_arange_def k beam_lengths_def clamp_min_def build_skeleton_def alloc_def
        skeleton_row_def count_nonpad_def spec_beam_offsets_def u k3 upt_rec)
qed

subsection \<open>Rounding to binary32\<close>

lemma rne_of_int [simp]: "rne (of_int k) = k"
  by (simp add: rne_def)

lemma rne_lower: "\<lfloor>z\<rfloor> \<le> rne z"
  by (simp add: rne_def Let_def)

lemma rne_upper: "rne z \<le> \<lfloor>z\<rfloor> + 1"
  by (simp add: rne_def Let_def)

lemma rne_mono: "x \<le> y \<Longrightarrow> rne x \<le> rne y"
proof -
  assume xy: "x \<le> y"
  then have fl: "\<lfloor>x\<rfloor> \<le> \<lfloor>y\<rfloor>" by (rule floor_mono)
  show ?thesis
  proof (cases "\<lfloor>x\<rfloor> = \<lfloor>y\<rfloor>")
    case True
    then have "x - of_int \<lfloor>x\<rfloor> \<le> y - of_int \<lfloor>y\<rfloor>" using xy by simp
    then show ?thesis using True by (auto simp: rne_def Let_def)
  next
    case False
    then have "\<lfloor>x\<rfloor> + 1 \<le> \<lfloor>y\<rfloor>" using fl by simp
    then show ?thesis using rne_upper [of x] rne_lower [of y] by linarith
  qed
qed

lemma rne_le_int: "z \<le> of_int k \<Longrightarrow> rne z \<le> k"
  using rne_mono [of z "of_int k"] by simp

lemma rne_ge_int: "of_int k \<le> z \<Longrightarrow> k \<le> rne z"
  using rne_mono [of "of_int k" z] by simp

lemma ulp_shift_zero: "0 \<le> X \<Longrightarrow> X < 2 ^ 24 \<Longrightarrow> ulp_shift X = 0"
proof -
  assume "0 \<le> X" "X < 2 ^ 24"
  then have "\<lfloor>X\<rfloor> < 2 ^ 24" by (simp add: floor_less_iff)
  then have "bitlen \<lfloor>X\<rfloor> \<le> 24" by (simp add: bitlen_le_iff_power)
  then show ?thesis by (simp add: ulp_shift_def)
qed

lemma ulp_shift_eq:
  assumes lo: "2 ^ (k + 23) \<le> X" and hi: "X < 2 ^ (k + 24)"
  shows "ulp_shift X = k"
proof -
  have "(2::int) ^ (k + 23) \<le> \<lfloor>X\<rfloor>" using lo by (simp add: le_floor_iff)
  moreover have "nat (int k + 24) - 1 = k + 23" by simp
  ultimately have "(2::int) ^ (nat (int k + 24) - 1) \<le> \<lfloor>X\<rfloor>" by simp
  then have ge: "int k + 24 \<le> bitlen \<lfloor>X\<rfloor>"
    unfolding bitlen_ge_iff_power by simp
  have "\<lfloor>X\<rfloor> < 2 ^ (k + 24)" using hi by (simp add: floor_less_iff)
  moreover have "nat (int k + 24) = k + 24" by simp
  ultimately have "\<lfloor>X\<rfloor> < 2 ^ nat (int k + 24)" by simp
  then have "bitlen \<lfloor>X\<rfloor> \<le> int k + 24"
    unfolding bitlen_le_iff_power by simp
  with ge show ?thesis by (simp add: ulp_shift_def)
qed

lemma ulp_shift_upper: "0 \<le> X \<Longrightarrow> X < 2 ^ (ulp_shift X + 24)"
proof -
  assume X: "0 \<le> X"
  have "bitlen \<lfloor>X\<rfloor> \<le> int (ulp_shift X + 24)" by (simp add: ulp_shift_def)
  then have "\<lfloor>X\<rfloor> < 2 ^ nat (int (ulp_shift X + 24))"
    unfolding bitlen_le_iff_power by simp
  moreover have "nat (int (ulp_shift X + 24)) = ulp_shift X + 24" by simp
  ultimately have "\<lfloor>X\<rfloor> < 2 ^ (ulp_shift X + 24)" by (simp only:)
  then show ?thesis by (simp add: floor_less_iff)
qed

lemma ulp_shift_lower: "0 < ulp_shift X \<Longrightarrow> 2 ^ (ulp_shift X + 23) \<le> X"
proof -
  assume p: "0 < ulp_shift X"
  then have b: "bitlen \<lfloor>X\<rfloor> = int (ulp_shift X) + 24" by (simp add: ulp_shift_def)
  then have "int (ulp_shift X) + 24 \<le> bitlen \<lfloor>X\<rfloor>" by simp
  then have "(2::int) ^ (nat (int (ulp_shift X) + 24) - 1) \<le> \<lfloor>X\<rfloor>"
    unfolding bitlen_ge_iff_power by simp
  moreover have "nat (int (ulp_shift X) + 24) - 1 = ulp_shift X + 23" by simp
  ultimately have "(2::int) ^ (ulp_shift X + 23) \<le> \<lfloor>X\<rfloor>" by simp
  then show ?thesis by (simp add: le_floor_iff)
qed

lemma ulp_shift_mono: "0 \<le> X \<Longrightarrow> X \<le> Y \<Longrightarrow> ulp_shift X \<le> ulp_shift Y"
proof -
  assume "0 \<le> X" "X \<le> Y"
  then have "nat \<lfloor>X\<rfloor> \<le> nat \<lfloor>Y\<rfloor>" by (simp add: floor_mono nat_mono)
  then have "bitlen \<lfloor>X\<rfloor> \<le> bitlen \<lfloor>Y\<rfloor>" by (simp add: bitlen_def floorlog_mono)
  then show ?thesis by (simp add: ulp_shift_def)
qed

lemma scaled_rne_le_power:
  assumes k: "sh \<le> k" and X: "X \<le> 2 ^ k"
  shows "2 ^ sh * rne (X / 2 ^ sh) \<le> 2 ^ k"
proof -
  from k obtain e where e: "k = sh + e" by (auto simp: le_iff_add)
  have "X / 2 ^ sh \<le> 2 ^ k / 2 ^ sh" using X by (simp add: divide_right_mono)
  also have "\<dots> = of_int (2 ^ e)" by (simp add: e power_add)
  finally have "rne (X / 2 ^ sh) \<le> 2 ^ e" by (rule rne_le_int)
  then have "2 ^ sh * rne (X / 2 ^ sh) \<le> 2 ^ sh * 2 ^ e" by simp
  also have "\<dots> = (2::int) ^ k" by (simp add: e power_add)
  finally show ?thesis .
qed

lemma scaled_rne_ge_power:
  assumes k: "sh \<le> k" and X: "2 ^ k \<le> X"
  shows "2 ^ k \<le> 2 ^ sh * rne (X / 2 ^ sh)"
proof -
  from k obtain e where e: "k = sh + e" by (auto simp: le_iff_add)
  have "of_int (2 ^ e) = (2::real) ^ k / 2 ^ sh" by (simp add: e power_add)
  also have "\<dots> \<le> X / 2 ^ sh" using X by (simp add: divide_right_mono)
  finally have "2 ^ e \<le> rne (X / 2 ^ sh)" by (rule rne_ge_int)
  then have "2 ^ sh * 2 ^ e \<le> 2 ^ sh * rne (X / 2 ^ sh)" by simp
  moreover have "2 ^ sh * 2 ^ e = (2::int) ^ k" by (simp add: e power_add)
  ultimately show ?thesis by simp
qed

lemma round_scaled_mono:
  assumes X: "0 \<le> X" and XY: "X \<le> Y"
  shows "round_scaled X \<le> round_scaled Y"
proof -
  let ?a = "ulp_shift X" and ?b = "ulp_shift Y"
  have ab: "?a \<le> ?b" using X XY by (rule ulp_shift_mono)
  show ?thesis
  proof (cases "?a = ?b")
    case True
    have "X / 2 ^ ?a \<le> Y / 2 ^ ?a" using XY by (simp add: divide_right_mono)
    then have "rne (X / 2 ^ ?a) \<le> rne (Y / 2 ^ ?a)" by (rule rne_mono)
    then show ?thesis using True by (simp add: round_scaled_def)
  next
    case False
    then have lt: "?a < ?b" using ab by simp
    then have pos: "0 < ?b" by simp
    have Ylo: "2 ^ (?b + 23) \<le> Y" using pos by (rule ulp_shift_lower)
    have "X < 2 ^ (?a + 24)" using X by (rule ulp_shift_upper)
    also have "(2::real) ^ (?a + 24) \<le> 2 ^ (?b + 23)"
      using lt by (intro power_increasing) simp_all
    finally have Xhi: "X \<le> 2 ^ (?b + 23)" by simp
    have "round_scaled X \<le> 2 ^ (?b + 23)"
      unfolding round_scaled_def using _ Xhi by (rule scaled_rne_le_power) (use lt in simp)
    moreover have "2 ^ (?b + 23) \<le> round_scaled Y"
      unfolding round_scaled_def using _ Ylo by (rule scaled_rne_ge_power) simp
    ultimately show ?thesis by simp
  qed
qed

lemma round_scaled_representable:
  assumes m0: "0 \<le> m" and m24: "m \<le> 2 ^ 24" and norm: "a = 0 \<or> 2 ^ 23 \<le> m"
  shows "round_scaled (of_int (2 ^ a * m)) = 2 ^ a * m"
proof (cases "m = 2 ^ 24")
  case True
  have R: "(of_int (2 ^ a * m) :: real) = 2 ^ (a + 24)" using True by (simp add: power_add)
  have sh: "ulp_shift (2 ^ (a + 24)) = Suc a"
    by (rule ulp_shift_eq) simp_all
  have "(2::real) ^ (a + 24) / 2 ^ Suc a = of_int (2 ^ 23)"
    by (simp add: power_add)
  then have "rne ((2::real) ^ (a + 24) / 2 ^ Suc a) = 2 ^ 23" by (simp only: rne_of_int)
  then have "round_scaled (2 ^ (a + 24)) = 2 ^ Suc a * 2 ^ 23"
    by (simp only: round_scaled_def sh)
  also have "\<dots> = 2 ^ a * m" using True by simp
  finally show ?thesis unfolding R .
next
  case False
  then have lt: "m < 2 ^ 24" using m24 by simp
  let ?R = "of_int (2 ^ a * m) :: real"
  have R0: "0 \<le> ?R" using m0 by simp
  have sh: "ulp_shift ?R = a"
  proof (cases "a = 0")
    case True
    have "?R < 2 ^ 24" using lt True by simp
    with R0 show ?thesis using True by (simp add: ulp_shift_zero)
  next
    case False
    then have m23: "2 ^ 23 \<le> m" using norm by simp
    have "(2::int) ^ (a + 23) \<le> 2 ^ a * m" using m23 by (simp add: power_add)
    then have lo: "(2::real) ^ (a + 23) \<le> ?R"
      by (metis of_int_le_iff of_int_numeral of_int_power)
    have "2 ^ a * m < (2::int) ^ (a + 24)" using lt by (simp add: power_add)
    then have hi: "?R < 2 ^ (a + 24)"
      by (metis of_int_less_iff of_int_numeral of_int_power)
    from lo hi show ?thesis by (rule ulp_shift_eq)
  qed
  have "?R / 2 ^ a = of_int m" by simp
  then have "rne (?R / 2 ^ a) = m" by (simp only: rne_of_int)
  then show ?thesis by (simp only: round_scaled_def sh)
qed

lemma round_scaled_nonneg: "0 \<le> X \<Longrightarrow> 0 \<le> round_scaled X"
proof -
  assume X: "0 \<le> X"
  then have "0 \<le> X / 2 ^ ulp_shift X" by simp
  then have "0 \<le> \<lfloor>X / 2 ^ ulp_shift X\<rfloor>" by simp
  then have "0 \<le> rne (X / 2 ^ ulp_shift X)" using rne_lower [of "X / 2 ^ ulp_shift X"] by linarith
  then show ?thesis by (simp add: round_scaled_def)
qed

lemma round_scaled_idem:
  assumes X: "0 \<le> X"
  shows "round_scaled (of_int (round_scaled X)) = round_scaled X"
proof -
  let ?a = "ulp_shift X"
  let ?m = "rne (X / 2 ^ ?a)"
  have m0: "0 \<le> ?m"
  proof -
    have "0 \<le> \<lfloor>X / 2 ^ ?a\<rfloor>" using X by simp
    then show ?thesis using rne_lower [of "X / 2 ^ ?a"] by linarith
  qed
  have "X < 2 ^ (?a + 24)" using X by (rule ulp_shift_upper)
  then have "X / 2 ^ ?a \<le> of_int (2 ^ 24)" by (simp add: power_add field_simps)
  then have m24: "?m \<le> 2 ^ 24" by (rule rne_le_int)
  have norm: "?a = 0 \<or> 2 ^ 23 \<le> ?m"
  proof (cases "?a = 0")
    case True
    then show ?thesis by simp
  next
    case False
    then have "2 ^ (?a + 23) \<le> X" by (simp add: ulp_shift_lower)
    then have "of_int (2 ^ 23) \<le> X / 2 ^ ?a" by (simp add: power_add field_simps)
    then have "2 ^ 23 \<le> ?m" by (rule rne_ge_int)
    then show ?thesis by simp
  qed
  from round_scaled_representable [OF m0 m24 norm]
  show ?thesis by (simp only: round_scaled_def)
qed

lemma round_scaled_zero [simp]: "round_scaled 0 = 0"
  using round_scaled_representable [of 0 0] by simp

lemma round_scaled_power2: "round_scaled (2 ^ k) = 2 ^ k"
proof (cases "k < 23")
  case True
  have "(2::int) ^ k \<le> 2 ^ 24" using True by (intro power_increasing) simp_all
  then have "round_scaled (of_int (2 ^ 0 * 2 ^ k)) = 2 ^ 0 * 2 ^ k"
    by (intro round_scaled_representable) simp_all
  then show ?thesis by simp
next
  case False
  then obtain e where e: "k = e + 23" by (metis le_add_diff_inverse2 not_less)
  have r: "round_scaled (of_int (2 ^ e * 2 ^ 23)) = 2 ^ e * 2 ^ 23"
    by (intro round_scaled_representable) simp_all
  have p: "(2::int) ^ e * 2 ^ 23 = 2 ^ k" unfolding e by (simp only: power_add)
  have "round_scaled (of_int (2 ^ k)) = 2 ^ k" using r unfolding p .
  then show ?thesis by simp
qed

lemma round32_nonneg_eq:
  "0 \<le> x \<Longrightarrow> round32 x = of_int (round_scaled (x * 2 ^ 149)) / 2 ^ 149"
  by (cases "x = 0") (simp_all add: round32_def sgn_if)

lemma round32_zero [simp]: "round32 0 = 0"
  by (simp add: round32_def)

lemma round32_nonneg: "0 \<le> x \<Longrightarrow> 0 \<le> round32 x"
  using round_scaled_nonneg [of "x * 2 ^ 149"] by (simp add: round32_nonneg_eq)

lemma round32_mono:
  assumes x: "0 \<le> x" and xy: "x \<le> y"
  shows "round32 x \<le> round32 y"
proof -
  have y: "0 \<le> y" using x xy by simp
  have "round_scaled (x * 2 ^ 149) \<le> round_scaled (y * 2 ^ 149)"
    using x xy by (intro round_scaled_mono) simp_all
  then have "real_of_int (round_scaled (x * 2 ^ 149)) \<le> real_of_int (round_scaled (y * 2 ^ 149))"
    by simp
  then show ?thesis
    unfolding round32_nonneg_eq [OF x] round32_nonneg_eq [OF y]
    by (simp add: divide_right_mono)
qed

lemma round32_idem:
  assumes x: "0 \<le> x"
  shows "round32 (round32 x) = round32 x"
proof -
  let ?R = "round_scaled (x * 2 ^ 149)"
  have r: "round32 x = of_int ?R / 2 ^ 149" using x by (rule round32_nonneg_eq)
  have r0: "0 \<le> round32 x" using x by (rule round32_nonneg)
  have "round32 (round32 x) = of_int (round_scaled (round32 x * 2 ^ 149)) / 2 ^ 149"
    using r0 by (rule round32_nonneg_eq)
  also have "round32 x * 2 ^ 149 = of_int ?R" unfolding r by simp
  also have "round_scaled (of_int ?R) = ?R"
    using x by (intro round_scaled_idem) simp
  finally show ?thesis unfolding r .
qed

lemma round32_power2: "round32 (2 ^ k) = 2 ^ k"
proof -
  have "round32 (2 ^ k) = of_int (round_scaled (2 ^ k * 2 ^ 149)) / 2 ^ 149"
    by (intro round32_nonneg_eq) simp
  also have "(2::real) ^ k * 2 ^ 149 = 2 ^ (k + 149)" by (simp only: power_add)
  also have "round_scaled (2 ^ (k + 149)) = 2 ^ (k + 149)" by (rule round_scaled_power2)
  finally show ?thesis by (simp add: power_add)
qed

lemma round32_one [simp]: "round32 1 = 1"
  using round32_power2 [of 0] by simp

lemma round32_le_one: "0 \<le> x \<Longrightarrow> x \<le> 1 \<Longrightarrow> round32 x \<le> 1"
  using round32_mono [of x 1] by simp

lemma fl32_small: "0 \<le> x \<Longrightarrow> x \<le> 2 ^ 63 \<Longrightarrow> fl32 x = Fin (round32 x)"
proof -
  assume x: "0 \<le> x" "x \<le> 2 ^ 63"
  have "round32 x \<le> round32 (2 ^ 63)" using x by (rule round32_mono)
  then have "round32 x \<le> 2 ^ 63" by (simp only: round32_power2)
  moreover have "0 \<le> round32 x" using x(1) by (rule round32_nonneg)
  ultimately have "\<bar>round32 x\<bar> < 2 ^ 128" by simp
  then show ?thesis by (simp add: fl32_def)
qed

lemma keep_prob_float32:
  fixes s m :: int and cp :: real
  assumes m0: "0 \<le> m" and ms: "m \<le> s" and s0: "0 < s" and s63: "s < 2 ^ 63"
    and c0: "0 \<le> cp" and c1: "cp \<le> 1"
  defines "K \<equiv> round32 (round32 (round32 (of_int (s - m)) / round32 (of_int s)) * round32 cp)"
  shows "fmul32 (fdiv32 (fl32 (of_int (s - m))) (fl32 (of_int s))) (fl32 cp) = Fin K \<and>
         0 \<le> K \<and> K \<le> round32 cp \<and> round32 cp \<le> 1 \<and> (m = s \<longrightarrow> K = 0)"
proof -
  define A where "A = round32 (of_int (s - m))"
  define B where "B = round32 (of_int s)"
  define Q where "Q = round32 (A / B)"
  define C where "C = round32 cp"
  have K: "K = round32 (Q * C)" by (simp only: K_def Q_def A_def B_def C_def)
  have a_rng: "0 \<le> real_of_int (s - m)" "real_of_int (s - m) \<le> real_of_int s"
    using m0 ms by simp_all
  have s1: "(1::real) \<le> real_of_int s" using s0 by simp
  have "s \<le> 2 ^ 63" using s63 by simp
  then have s2: "real_of_int s \<le> 2 ^ 63" by (metis of_int_le_iff of_int_numeral of_int_power)
  have A0: "0 \<le> A" unfolding A_def using a_rng(1) by (rule round32_nonneg)
  have AB: "A \<le> B" unfolding A_def B_def using a_rng by (rule round32_mono)
  have "round32 1 \<le> B" unfolding B_def using _ s1 by (rule round32_mono) simp
  then have B1: "1 \<le> B" by simp
  have flA: "fl32 (of_int (s - m)) = Fin A"
    unfolding A_def using a_rng(1) order_trans [OF a_rng(2) s2] by (rule fl32_small)
  have flB: "fl32 (of_int s) = Fin B"
    unfolding B_def using _ s2 by (rule fl32_small) (use s1 in simp)
  have q_rng: "0 \<le> A / B" "A / B \<le> 1" using A0 AB B1 by simp_all
  have Q0: "0 \<le> Q" unfolding Q_def using q_rng(1) by (rule round32_nonneg)
  have Q1: "Q \<le> 1" unfolding Q_def using q_rng by (rule round32_le_one)
  have flQ: "fl32 (A / B) = Fin Q"
    unfolding Q_def using q_rng(1) by (rule fl32_small) (use q_rng(2) in simp)
  have C0: "0 \<le> C" unfolding C_def using c0 by (rule round32_nonneg)
  have C1: "C \<le> 1" unfolding C_def using c0 c1 by (rule round32_le_one)
  have flC: "fl32 cp = Fin C"
    unfolding C_def using c0 by (rule fl32_small) (use c1 in simp)
  have p0: "0 \<le> Q * C" using Q0 C0 by (rule mult_nonneg_nonneg)
  have "Q * C \<le> 1 * C" using Q1 C0 by (rule mult_right_mono)
  then have p1: "Q * C \<le> C" by simp
  have K0: "0 \<le> K" unfolding K using p0 by (rule round32_nonneg)
  have "K \<le> round32 C" unfolding K using p0 p1 by (rule round32_mono)
  also have "round32 C = C" unfolding C_def using c0 by (rule round32_idem)
  finally have K1: "K \<le> C" .
  have flK: "fl32 (Q * C) = Fin K"
    unfolding K using p0 by (rule fl32_small) (use p1 C1 in simp)
  have B_ne: "B \<noteq> 0" using B1 by simp
  have d: "fdiv32 (fl32 (of_int (s - m))) (fl32 (of_int s)) = Fin Q"
    unfolding flA flB fdiv32_def using B_ne by (simp add: round_float_def flQ)
  have val: "fmul32 (fdiv32 (fl32 (of_int (s - m))) (fl32 (of_int s))) (fl32 cp) = Fin K"
    unfolding d flC fmul32_def by (simp add: round_float_def flK)
  have Z: "m = s \<longrightarrow> K = 0" by (simp add: K_def)
  show ?thesis using val K0 K1 C1 Z unfolding C_def by (intro conjI)
qed

lemma round32_three_tenths: "round32 (3 / 10) = 10066330 / 2 ^ 25"
proof -
  let ?X = "3 / 10 * 2 ^ 149 :: real"
  have sh: "ulp_shift ?X = 124" by (rule ulp_shift_eq) simp_all
  have "?X / 2 ^ 124 = 3 * 2 ^ 25 / 10" by simp
  moreover have "rne (3 * 2 ^ 25 / 10) = 10066330" by (simp add: rne_def Let_def)
  ultimately have "rne (?X / 2 ^ 124) = 10066330" by (simp only:)
  then have "round_scaled ?X = 2 ^ 124 * 10066330" by (simp only: round_scaled_def sh)
  moreover have "round32 (3 / 10) = of_int (round_scaled ?X) / 2 ^ 149"
    by (intro round32_nonneg_eq) simp
  ultimately show ?thesis by simp
qed







subsection \<open>Claim C6: the keep probability of glancing training\<close>







lemma keep_word_mask_shape:
  "length (keep_word_mask rand kp) = min (length rand) (length kp) \<and>
   (b < length rand \<longrightarrow> b < length kp \<longrightarrow> length (keep_word_mask rand kp ! b) = length (rand ! b))"
  by (simp add: keep_word_mask_def)

lemma masked_fill_shape:
  "length (masked_fill x m v) = min (length x) (length m) \<and>
   (b < length x \<longrightarrow> b < length m \<longrightarrow>
      length (masked_fill x m v ! b) = min (length (x ! b)) (length (m ! b)))"
  by (simp add: masked_fill_def)

subsection \<open>Claim C1: what the glancing mask selects\<close>




lemma glat_stage_without_context_p:
  assumes "case glat of None \<Rightarrow> True | Some g \<Rightarrow> map_of g ''context_p'' = None"
  shows "glat_stage a d dec prev_output_tokens tgt_tokens glat train_ratio rand =
           (case glat of
              None \<Rightarrow>
                Inr \<lparr>st_prev_output_tokens = prev_output_tokens, st_tgt_tokens = tgt_tokens,
                     st_glat_info = None, st_anneal_info = None, st_all_layer_weight = None\<rparr>
            | Some g \<Rightarrow>
                if g \<noteq> [] \<and> map_of g ''schedule'' \<noteq> None then Inl NotImplementedError
                else Inr \<lparr>st_prev_output_tokens = prev_output_tokens, st_tgt_tokens = tgt_tokens,
                          st_glat_info = None, st_anneal_info = None,
                          st_all_layer_weight = None\<rparr>)"
  using assms by (auto simp: glat_stage_def Let_def split: option.splits)

subsection \<open>Claim C10: training without a context proportion\<close>

text \<open>
  C10 (as amended). In the glancing model, a training-mode forward pass returns a loss
  dictionary only when \<^verbatim>\<open>glat\<close> carries \<^verbatim>\<open>context_p\<close>. For every call in training
  mode with \<^verbatim>\<open>glat\<close> equal to \<^verbatim>\<open>None\<close> or lacking the \<^verbatim>\<open>context_p\<close> key the call
  raises: \<^verbatim>\<open>NotImplementedError\<close> when \<^verbatim>\<open>glat\<close> is a non-empty dictionary with the
  key \<^verbatim>\<open>schedule\<close>, and otherwise the \<^verbatim>\<open>NameError\<close> of reading
  \<^verbatim>\<open>all_layer_weight\<close>, which was never assigned.
\<close>


theorem forward_training_without_context_p:
  assumes "case glat of None \<Rightarrow> True | Some g \<Rightarrow> map_of g ''context_p'' = None"
  shows "forward a d dec True prev_output_tokens tgt_tokens glat train_ratio rand =
           (case glat of
              None \<Rightarrow> Inl NameError
            | Some g \<Rightarrow>
                if g \<noteq> [] \<and> map_of g ''schedule'' \<noteq> None then Inl NotImplementedError
                else Inl NameError)"
  using glat_stage_without_context_p [OF assms, of a d dec prev_output_tokens tgt_tokens train_ratio rand]
  by (auto simp: forward_def Let_def split: option.splits)

theorem forward_training_without_context_p_witness:
  "(case (None :: (string \<times> real) list option) of None \<Rightarrow> True
      | Some g \<Rightarrow> map_of g ''context_p'' = None) \<and>
   forward \<lparr>fix_schedule = False, always_half = True\<rparr> \<lparr>pad = 1, bos = 0, eos = 2, unk = 3\<rparr>
     (\<lambda>toks w. Inr [map (map (\<lambda>t. [0, 1])) toks]) True [[0, 3, 2]] [[7, 8, 2]] None
     (Some (1 / 10)) [[1 / 4, 1 / 2, 3 / 4]] = Inl NameError"
proof -
  have h: "case (None :: (string \<times> real) list option) of None \<Rightarrow> True
      | Some g \<Rightarrow> map_of g ''context_p'' = None" by simp
  show ?thesis
    using h forward_training_without_context_p [OF h,
      of "\<lparr>fix_schedule = False, always_half = True\<rparr>" "\<lparr>pad = 1, bos = 0, eos = 2, unk = 3\<rparr>"
         "\<lambda>toks w. Inr [map (map (\<lambda>t. [0, 1])) toks]" "[[0, 3, 2]]" "[[7, 8, 2]]"
         "Some (1 / 10)" "[[1 / 4, 1 / 2, 3 / 4]]"]
    by simp
qed

text \<open>
  The claim as stated promises the \<^verbatim>\<open>NameError\<close> for every dictionary without
  \<^verbatim>\<open>context_p\<close>; a dictionary with the key \<^verbatim>\<open>schedule\<close> is stopped earlier, by
  the explicit \<^verbatim>\<open>raise NotImplementedError\<close>, and never reaches the decoder call.
\<close>


theorem forward_training_schedule_counterexample:
  "map_of [(''schedule'', 1 / 2 :: real)] ''context_p'' = None \<and>
   forward \<lparr>fix_schedule = False, always_half = True\<rparr> \<lparr>pad = 1, bos = 0, eos = 2, unk = 3\<rparr>
     (\<lambda>toks w. Inr [map (map (\<lambda>t. [0, 1])) toks]) True [[0, 3, 2]] [[7, 8, 2]]
     (Some [(''schedule'', 1 / 2)]) (Some (1 / 10)) [[1 / 4, 1 / 2, 3 / 4]]
     = Inl NotImplementedError"
  by (simp add: forward_def glat_stage_def Let_def)

text \<open>With \<^verbatim>\<open>context_p\<close> supplied the same call returns.\<close>


lemma forward_training_with_context_p_example:
  "\<exists>r. forward \<lparr>fix_schedule = False, always_half = True\<rparr> \<lparr>pad = 1, bos = 0, eos = 2, unk = 3\<rparr>
     (\<lambda>toks w. Inr [map (map (\<lambda>t. [0, 1])) toks]) True [[0, 3, 2]] [[7, 8, 2]]
     (Some [(''context_p'', 1 / 2)]) (Some (1 / 10)) [[1 / 4, 1 / 2, 3 / 4]]
     = Inr r"
  by (simp add: forward_def glat_stage_def Let_def py_index_def all_layer_weights_def)

lemma decoder_loop_counts:
  assumes "case w of None \<Rightarrow> True
           | Some ws \<Rightarrow> i + min (length ls) (case early_exit of None \<Rightarrow> length ls
                                                 | Some e \<Rightarrow> nat (e - int i)) \<le> length ws"
  shows "\<exists>st' ys. decoder_loop a dc early_exit w i ls st = Inr st' \<and>
           inner_states st' = inner_states st @ ys \<and>
           length ys = min (length ls) (case early_exit of None \<Rightarrow> length ls
                                        | Some e \<Rightarrow> nat (e - int i)) \<and>
           length (all_layer_output_logits st') =
             length (all_layer_output_logits st) + length ys
               - (if i = 0 \<and> ys \<noteq> [] then 1 else 0)"
  using assms
proof (induction ls arbitrary: i st)
  case Nil
  show ?case by simp
next
  case (Cons layer rest)
  let ?runs = "\<lambda>i ls. min (length ls) (case early_exit of None \<Rightarrow> length ls
                                        | Some e \<Rightarrow> nat (e - int i))"
  show ?case
  proof (cases "case early_exit of None \<Rightarrow> False | Some e \<Rightarrow> int i \<ge> e")
    case True
    then have "?runs i (layer # rest) = 0" by (auto split: option.splits)
    moreover have "decoder_loop a dc early_exit w i (layer # rest) st = Inr st"
      using True by simp
    ultimately show ?thesis by (intro exI [of _ st] exI [of _ "[]"]) simp
  next
    case False
    then have runs: "?runs i (layer # rest) = Suc (?runs (Suc i) rest)"
      by (auto split: option.splits simp: min_def)
    let ?x = "cur_x st"
    let ?lg = "output_layer dc ?x"
    let ?yh = "y_hat_of a dc ?lg"
    have wi: "case w of None \<Rightarrow> True | Some ws \<Rightarrow> i < length ws"
      using Cons.prems runs by (auto split: option.splits)
    then obtain new_x where nx: "new_x_of w i ?x ?yh = Inr new_x"
      by (auto simp: new_x_of_def split: option.splits)
    let ?st1 = "\<lparr>cur_x = layer new_x, inner_states = inner_states st @ [layer new_x],
                 all_layer_output_logits =
                   (if i > 0 then all_layer_output_logits st @ [?lg]
                    else all_layer_output_logits st)\<rparr>"
    have step: "decoder_loop a dc early_exit w i (layer # rest) st =
                  decoder_loop a dc early_exit w (Suc i) rest ?st1"
      using False nx by (simp add: Let_def)
    have pre: "case w of None \<Rightarrow> True
           | Some ws \<Rightarrow> Suc i + ?runs (Suc i) rest \<le> length ws"
      using Cons.prems runs by (auto split: option.splits)
    from Cons.IH [OF pre, of ?st1]
    obtain st' ys where r: "decoder_loop a dc early_exit w (Suc i) rest ?st1 = Inr st'"
      "inner_states st' = inner_states ?st1 @ ys"
      "length ys = ?runs (Suc i) rest"
      "length (all_layer_output_logits st') =
         length (all_layer_output_logits ?st1) + length ys
           - (if Suc i = 0 \<and> ys \<noteq> [] then 1 else 0)"
      by blast
    have a1: "inner_states st' = inner_states st @ (layer new_x # ys)" using r(2) by simp
    have a2: "length (layer new_x # ys) = ?runs i (layer # rest)" using r(3) runs by simp
    have a3: "length (all_layer_output_logits st') =
             length (all_layer_output_logits st) + length (layer new_x # ys)
               - (if i = 0 \<and> layer new_x # ys \<noteq> [] then 1 else 0)"
      using r(4) by simp
    show ?thesis
      using step r(1) a1 a2 a3
      by (intro exI [of _ st'] exI [of _ "layer new_x # ys"]) simp
  qed
qed

lemma decoder_loop_prefix:
  "decoder_loop a dc early_exit w i ls st = Inr st' \<Longrightarrow>
     \<exists>ys. inner_states st' = inner_states st @ ys"
proof (induction ls arbitrary: i st)
  case Nil
  then show ?case by simp
next
  case (Cons layer rest)
  show ?case
  proof (cases "case early_exit of None \<Rightarrow> False | Some e \<Rightarrow> int i \<ge> e")
    case True
    with Cons.prems show ?thesis by simp
  next
    case False
    show ?thesis
    proof (cases "new_x_of w i (cur_x st) (y_hat_of a dc (output_layer dc (cur_x st)))")
      case (Inl e)
      with Cons.prems False show ?thesis by (simp add: Let_def)
    next
      case (Inr new_x)
      let ?st1 = "\<lparr>cur_x = layer new_x, inner_states = inner_states st @ [layer new_x],
                 all_layer_output_logits =
                   (if i > 0 then all_layer_output_logits st
                                    @ [output_layer dc (cur_x st)]
                    else all_layer_output_logits st)\<rparr>"
      have "decoder_loop a dc early_exit w (Suc i) rest ?st1 = Inr st'"
        using Cons.prems False Inr by (simp add: Let_def)
      from Cons.IH [OF this] obtain ys where "inner_states st' = inner_states ?st1 @ ys"
        by blast
      then have "inner_states st' = inner_states st @ (layer new_x # ys)" by simp
      then show ?thesis by blast
    qed
  qed
qed

lemma decoder_loop_feeds_blend:
  assumes "decoder_loop a dc early_exit w i ls st = Inr st'"
    and "inner_states st \<noteq> []" and "cur_x st = last (inner_states st)"
  shows "\<forall>k. length (inner_states st) + k < length (inner_states st') \<longrightarrow>
           (\<exists>new_x.
              new_x_of w (i + k) (inner_states st' ! (length (inner_states st) - 1 + k))
                (y_hat_of a dc (output_layer dc
                   (inner_states st' ! (length (inner_states st) - 1 + k)))) = Inr new_x \<and>
              k < length ls \<and>
              inner_states st' ! (length (inner_states st) + k) = (ls ! k) new_x)"
  using assms
proof (induction ls arbitrary: i st)
  case Nil
  then show ?case by simp
next
  case (Cons layer rest)
  show ?case
  proof (cases "case early_exit of None \<Rightarrow> False | Some e \<Rightarrow> int i \<ge> e")
    case True
    with Cons.prems show ?thesis by simp
  next
    case False
    show ?thesis
    proof (cases "new_x_of w i (cur_x st) (y_hat_of a dc (output_layer dc (cur_x st)))")
      case (Inl e)
      with Cons.prems False show ?thesis by (simp add: Let_def)
    next
      case (Inr new_x)
      let ?n = "length (inner_states st)"
      let ?st1 = "\<lparr>cur_x = layer new_x, inner_states = inner_states st @ [layer new_x],
                 all_layer_output_logits =
                   (if i > 0 then all_layer_output_logits st
                                    @ [output_layer dc (cur_x st)]
                    else all_layer_output_logits st)\<rparr>"
      have run: "decoder_loop a dc early_exit w (Suc i) rest ?st1 = Inr st'"
        using Cons.prems(1) False Inr by (simp add: Let_def)
      from decoder_loop_prefix [OF run] obtain ys where
        ys: "inner_states st' = (inner_states st @ [layer new_x]) @ ys" by auto
      have npos: "0 < ?n" using Cons.prems(2) by simp
      have at_last: "inner_states st' ! (?n - 1) = cur_x st"
        using ys npos Cons.prems(2,3) by (simp add: nth_append last_conv_nth)
      have at_n: "inner_states st' ! ?n = layer new_x"
        using ys by (simp add: nth_append)
      have IH: "\<forall>k. Suc ?n + k < length (inner_states st') \<longrightarrow>
           (\<exists>nx.
              new_x_of w (Suc i + k) (inner_states st' ! (?n + k))
                (y_hat_of a dc (output_layer dc (inner_states st' ! (?n + k)))) = Inr nx \<and>
              k < length rest \<and>
              inner_states st' ! (Suc ?n + k) = (rest ! k) nx)"
        using Cons.IH [OF run] by simp
      show ?thesis
      proof (intro allI impI)
        fix k assume k: "?n + k < length (inner_states st')"
        show "\<exists>nx. new_x_of w (i + k) (inner_states st' ! (?n - 1 + k))
                (y_hat_of a dc (output_layer dc (inner_states st' ! (?n - 1 + k)))) = Inr nx \<and>
              k < length (layer # rest) \<and>
              inner_states st' ! (?n + k) = ((layer # rest) ! k) nx"
        proof (cases k)
          case 0
          then show ?thesis using Inr at_last at_n by simp
        next
          case (Suc k')
          then have "Suc ?n + k' < length (inner_states st')" using k by simp
          with IH obtain nx where nx0:
            "new_x_of w (Suc i + k') (inner_states st' ! (?n + k'))
                (y_hat_of a dc (output_layer dc (inner_states st' ! (?n + k')))) = Inr nx"
            "k' < length rest" "inner_states st' ! (Suc ?n + k') = (rest ! k') nx"
            by blast
          note nx = nx0
          have idx: "?n - 1 + k = ?n + k'" using Suc npos by simp
          have i1: "i + k = Suc i + k'" using Suc by simp
          have i2: "?n + k = Suc ?n + k'" using Suc by simp
          have i3: "(layer # rest) ! k = rest ! k'" using Suc by simp
          have i4: "k < length (layer # rest)" using nx(2) Suc by simp
          show ?thesis unfolding idx i1 i2 i3 using nx(1,3) i4 by blast
        qed
      qed
    qed
  qed
qed

lemma example_extract_features:
  "extract_features example_decoder_args example_decoder [[1]] (Some 1) False None =
     Inr \<lparr>feat_x = [[[sqrt 2]]],
          feat_inner_states = [[[[1]]], [[[sqrt 2]]]],
          feat_all_layer_output_logits = [[[[0, sqrt 2]]]]\<rparr>"
  by (simp add: extract_features_def example_decoder_def example_decoder_args_def Let_def
      y_hat_of_def argmax_def maximum_def new_x_of_def blend_plain_def real_div_sqrt)

lemma decoder_loop_logits:
  assumes "decoder_loop a dc early_exit w i ls st = Inr st'"
    and "inner_states st \<noteq> []" and "cur_x st = last (inner_states st)"
  shows "cur_x st' = last (inner_states st') \<and>
         (\<exists>ys. inner_states st' = inner_states st @ ys \<and>
            all_layer_output_logits st' =
              all_layer_output_logits st
                @ map (output_layer dc) (if i = 0 then butlast ys else butlast (cur_x st # ys)))"
  using assms
proof (induction ls arbitrary: i st)
  case Nil
  then show ?case by simp
next
  case (Cons layer rest)
  show ?case
  proof (cases "case early_exit of None \<Rightarrow> False | Some e \<Rightarrow> int i \<ge> e")
    case True
    with Cons.prems show ?thesis by simp
  next
    case False
    show ?thesis
    proof (cases "new_x_of w i (cur_x st) (y_hat_of a dc (output_layer dc (cur_x st)))")
      case (Inl e)
      with Cons.prems False show ?thesis by (simp add: Let_def)
    next
      case (Inr new_x)
      let ?x = "cur_x st"
      let ?x' = "layer new_x"
      let ?st1 = "\<lparr>cur_x = ?x', inner_states = inner_states st @ [?x'],
                 all_layer_output_logits =
                   (if i > 0 then all_layer_output_logits st @ [output_layer dc ?x]
                    else all_layer_output_logits st)\<rparr>"
      have run: "decoder_loop a dc early_exit w (Suc i) rest ?st1 = Inr st'"
        using Cons.prems(1) False Inr by (simp add: Let_def)
      have "cur_x st' = last (inner_states st') \<and>
         (\<exists>ys. inner_states st' = inner_states ?st1 @ ys \<and>
            all_layer_output_logits st' =
              all_layer_output_logits ?st1
                @ map (output_layer dc)
                    (if Suc i = 0 then butlast ys else butlast (cur_x ?st1 # ys)))"
        by (rule Cons.IH [OF run]) simp_all
      then obtain ys where c: "cur_x st' = last (inner_states st')"
        and i1: "inner_states st' = (inner_states st @ [?x']) @ ys"
        and l1: "all_layer_output_logits st' =
                   (if i > 0 then all_layer_output_logits st @ [output_layer dc ?x]
                    else all_layer_output_logits st)
                   @ map (output_layer dc) (butlast (?x' # ys))"
        by auto
      have i2: "inner_states st' = inner_states st @ (?x' # ys)" using i1 by simp
      have l2: "all_layer_output_logits st' =
              all_layer_output_logits st
                @ map (output_layer dc)
                    (if i = 0 then butlast (?x' # ys) else butlast (?x # ?x' # ys))"
        using l1 by simp
      show ?thesis using c i2 l2 by blast
    qed
  qed
qed

lemma decoder_loop_too_few_weights:
  assumes "i \<le> length ws"
    and "length ws < i + min (length ls) (case early_exit of None \<Rightarrow> length ls
                                          | Some e \<Rightarrow> nat (e - int i))"
  shows "decoder_loop a dc early_exit (Some ws) i ls st = Inl IndexError"
  using assms
proof (induction ls arbitrary: i st)
  case Nil
  then show ?case by simp
next
  case (Cons layer rest)
  have noexit: "\<not> (case early_exit of None \<Rightarrow> False | Some e \<Rightarrow> int i \<ge> e)"
    using Cons.prems by (auto split: option.splits)
  then have runs: "min (length (layer # rest)) (case early_exit of None \<Rightarrow> length (layer # rest)
                                        | Some e \<Rightarrow> nat (e - int i))
                 = Suc (min (length rest) (case early_exit of None \<Rightarrow> length rest
                                        | Some e \<Rightarrow> nat (e - int (Suc i))))"
    by (auto split: option.splits simp: min_def)
  show ?case
  proof (cases "i = length ws")
    case True
    then have nx: "new_x_of (Some ws) i (cur_x st) (y_hat_of a dc (output_layer dc (cur_x st)))
                = Inl IndexError"
      by (simp add: new_x_of_def)
    show ?thesis using noexit nx by (simp add: Let_def)
  next
    case False
    then have lt: "i < length ws" using Cons.prems(1) by simp
    have nx: "new_x_of (Some ws) i (cur_x st) (y_hat_of a dc (output_layer dc (cur_x st)))
                = Inr (blend_weighted (ws ! i) (cur_x st)
                         (y_hat_of a dc (output_layer dc (cur_x st))))"
      using lt by (simp add: new_x_of_def)
    have p1: "Suc i \<le> length ws" using lt by simp
    have p2: "length ws < Suc i + min (length rest) (case early_exit of None \<Rightarrow> length rest
                                        | Some e \<Rightarrow> nat (e - int (Suc i)))"
      using Cons.prems(2) runs by simp
    show ?thesis using noexit nx Cons.IH [OF p1 p2] by (simp add: Let_def)
  qed
qed

subsection \<open>Claim C4: how many logits the decoder core returns\<close>

text \<open>
  C4 (as amended). For every early-exit value \<open>e\<close> with \<open>1 \<le> e \<le>\<close> number of decoder
  layers, the decoder core returns when no per-layer weights are passed or at least
  \<open>e\<close> of them are, and raises \<^verbatim>\<open>IndexError\<close> when fewer than \<open>e\<close> weights are
  passed. When it returns it has run \<open>e\<close> layers (\<^verbatim>\<open>inner_states\<close> holds the embedded
  input and one state for every layer run), and the list of per-layer logits has
  length \<open>e\<close>, the number of layers run. Its entries are the logits of the states
  after layer 0, after layer 1, and so on up to the state after the last layer run:
  the logits of the embedded input, which layer 0 computes, are not in the list,
  every later layer run contributes the logits of the state it starts from, and the
  trailing entry holds the logits of the state after the last layer run.
\<close>

theorem extract_features_logits_length:
  assumes e1: "1 \<le> e" and eL: "e \<le> int (length (layers dc))"
  shows "((case w of None \<Rightarrow> True | Some ws \<Rightarrow> nat e \<le> length ws) \<longrightarrow>
            (\<exists>f. extract_features a dc prev_output_tokens (Some e) embedding_copy w = Inr f \<and>
                 length (feat_inner_states f) = nat e + 1 \<and>
                 length (feat_all_layer_output_logits f) = nat e \<and>
                 feat_all_layer_output_logits f
                   = map (output_layer dc) (tl (feat_inner_states f)))) \<and>
         ((case w of None \<Rightarrow> False | Some ws \<Rightarrow> length ws < nat e) \<longrightarrow>
            extract_features a dc prev_output_tokens (Some e) embedding_copy w = Inl IndexError)"
proof (intro conjI impI)
  let ?x = "forward_embedding dc embedding_copy prev_output_tokens"
  let ?st = "\<lparr>cur_x = ?x, inner_states = [?x], all_layer_output_logits = []\<rparr>"
  have runs: "min (length (layers dc)) (case Some e of None \<Rightarrow> length (layers dc)
                                        | Some e \<Rightarrow> nat (e - int 0)) = nat e"
    using e1 eL by simp
  {
    assume wok: "case w of None \<Rightarrow> True | Some ws \<Rightarrow> nat e \<le> length ws"
    have pre: "case w of None \<Rightarrow> True
             | Some ws \<Rightarrow> 0 + min (length (layers dc))
                   (case Some e of None \<Rightarrow> length (layers dc) | Some e \<Rightarrow> nat (e - int 0))
                   \<le> length ws"
      using wok unfolding runs by (simp split: option.splits)
    from decoder_loop_counts [OF pre, of a dc ?st]
    obtain st' ys where r: "decoder_loop a dc (Some e) w 0 (layers dc) ?st = Inr st'"
      "inner_states st' = inner_states ?st @ ys"
      "length ys = nat e"
      unfolding runs by blast
    from decoder_loop_logits [OF r(1)]
    obtain zs where c: "cur_x st' = last (inner_states st')"
      and z: "inner_states st' = inner_states ?st @ zs"
        "all_layer_output_logits st' =
           all_layer_output_logits ?st @ map (output_layer dc) (if (0::nat) = 0 then butlast zs
              else butlast (cur_x ?st # zs))"
      by auto
    have zy: "zs = ys" using z(1) r(2) by simp
    have yne: "ys \<noteq> []" using r(3) e1 by auto
    have inner: "inner_states st' = ?x # ys" using r(2) by simp
    have lg: "all_layer_output_logits st' = map (output_layer dc) (butlast ys)"
      using z(2) zy by simp
    have cur: "cur_x st' = last ys" using c inner yne by simp
    have "all_layer_output_logits st' @ [output_layer dc (cur_x st')]
            = map (output_layer dc) (butlast ys @ [last ys])"
      using lg cur by simp
    also have "\<dots> = map (output_layer dc) ys" using yne by simp
    finally have full: "all_layer_output_logits st' @ [output_layer dc (cur_x st')]
            = map (output_layer dc) (tl (inner_states st'))" using inner by simp
    have l1: "length (inner_states st') = nat e + 1" using inner r(3) by simp
    have l3: "length (all_layer_output_logits st' @ [output_layer dc (cur_x st')]) = nat e"
      using full inner r(3) by simp
    show "\<exists>f. extract_features a dc prev_output_tokens (Some e) embedding_copy w = Inr f \<and>
                 length (feat_inner_states f) = nat e + 1 \<and>
                 length (feat_all_layer_output_logits f) = nat e \<and>
                 feat_all_layer_output_logits f
                   = map (output_layer dc) (tl (feat_inner_states f))"
      using r(1) l1 l3 full by (simp add: extract_features_def Let_def)
  }
  {
    assume few: "case w of None \<Rightarrow> False | Some ws \<Rightarrow> length ws < nat e"
    then obtain ws where w: "w = Some ws" and lt: "length ws < nat e"
      by (auto split: option.splits)
    have p2: "length ws < 0 + min (length (layers dc)) (case Some e of None \<Rightarrow> length (layers dc)
                                          | Some e \<Rightarrow> nat (e - int 0))"
      unfolding runs using lt by simp
    have "decoder_loop a dc (Some e) (Some ws) 0 (layers dc) ?st = Inl IndexError"
      by (rule decoder_loop_too_few_weights [OF _ p2]) simp
    then show "extract_features a dc prev_output_tokens (Some e) embedding_copy w = Inl IndexError"
      using w by (simp add: extract_features_def Let_def)
  }
qed

theorem extract_features_logits_length_witness:
  "(1::int) \<le> 1 \<and> (1::int) \<le> int (length (layers example_decoder)) \<and>
   (\<exists>f. extract_features example_decoder_args example_decoder [[1]] (Some 1) False None = Inr f \<and>
        length (feat_inner_states f) = 2 \<and>
        length (feat_all_layer_output_logits f) = 1 \<and>
        feat_all_layer_output_logits f
          = map (output_layer example_decoder) (tl (feat_inner_states f))) \<and>
   extract_features example_decoder_args example_decoder [[1]] (Some 1) False (Some [])
     = Inl IndexError"
proof -
  have e1: "(1::int) \<le> 1" by simp
  have eL: "(1::int) \<le> int (length (layers example_decoder))"
    by (simp add: example_decoder_def)
  note t1 = extract_features_logits_length [OF e1 eL, of None example_decoder_args "[[1]]" False]
  note t2 = extract_features_logits_length [OF e1 eL, of "Some []" example_decoder_args "[[1]]" False]
  from t1 obtain f where f:
    "extract_features example_decoder_args example_decoder [[1]] (Some 1) False None = Inr f"
    "length (feat_inner_states f) = nat 1 + 1"
    "length (feat_all_layer_output_logits f) = nat 1"
    "feat_all_layer_output_logits f = map (output_layer example_decoder) (tl (feat_inner_states f))"
    by auto
  have "length (feat_inner_states f) = 2" "length (feat_all_layer_output_logits f) = 1"
    using f(2,3) by simp_all
  with f(1,4) have ex: "\<exists>f. extract_features example_decoder_args example_decoder [[1]] (Some 1) False None = Inr f \<and>
        length (feat_inner_states f) = 2 \<and>
        length (feat_all_layer_output_logits f) = 1 \<and>
        feat_all_layer_output_logits f
          = map (output_layer example_decoder) (tl (feat_inner_states f))"
    by blast
  have ie: "extract_features example_decoder_args example_decoder [[1]] (Some 1) False (Some [])
     = Inl IndexError"
    using t2 by simp
  show ?thesis using e1 eL ex ie by (intro conjI)
qed

text \<open>
  The claim as stated asks for one entry more than the layers run. With two layers and
  early exit 1 the core runs one layer and returns one logits entry, not two.
\<close>


theorem extract_features_logits_length_counterexample:
  "(case extract_features example_decoder_args example_decoder [[1]] (Some 1) False None of
      Inl e \<Rightarrow> (0, 0)
    | Inr f \<Rightarrow> (length (feat_inner_states f) - 1, length (feat_all_layer_output_logits f)))
     = (1, 1)"
  by (simp add: example_extract_features)

subsection \<open>Claim C2: what every layer is fed\<close>

text \<open>
  C2 (as amended). In the self-conditioning decoder core every layer that runs, layer 0
  included, is fed the feedback blend: the state after layer \<open>k\<close> is layer \<open>k\<close> applied
  to \<open>new_x\<close>, the blend of the state before it with \<open>y_hat\<close> computed from that state's
  logits; without a weight schedule the blend is \<open>(x + y_hat) / sqrt 2\<close>. The state
  before layer 0 is the embedded input. What layer 0 leaves out is only the entry of
  its logits in the returned list (claim C4).
\<close>


theorem extract_features_layer_input:
  assumes run: "extract_features a dc prev_output_tokens early_exit embedding_copy w = Inr f"
    and k: "Suc k < length (feat_inner_states f)"
  shows "\<exists>new_x.
           new_x_of w k (feat_inner_states f ! k)
             (y_hat_of a dc (output_layer dc (feat_inner_states f ! k))) = Inr new_x \<and>
           k < length (layers dc) \<and>
           feat_inner_states f ! Suc k = (layers dc ! k) new_x \<and>
           feat_inner_states f ! 0 = forward_embedding dc embedding_copy prev_output_tokens \<and>
           (w = None \<longrightarrow>
              new_x = blend_plain (feat_inner_states f ! k)
                        (y_hat_of a dc (output_layer dc (feat_inner_states f ! k))))"
proof -
  let ?x = "forward_embedding dc embedding_copy prev_output_tokens"
  let ?st = "\<lparr>cur_x = ?x, inner_states = [?x], all_layer_output_logits = []\<rparr>"
  from run obtain st' where loop: "decoder_loop a dc early_exit w 0 (layers dc) ?st = Inr st'"
    and f: "feat_inner_states f = inner_states st'"
    by (auto simp: extract_features_def Let_def split: sum.splits)
  from decoder_loop_prefix [OF loop] obtain ys where ys: "inner_states st' = [?x] @ ys" by auto
  have x0: "feat_inner_states f ! 0 = ?x" using f ys by simp
  have "length (inner_states ?st) + k < length (inner_states st')" using k f by simp
  with decoder_loop_feeds_blend [OF loop] obtain new_x where
    nx: "new_x_of w (0 + k) (inner_states st' ! (length (inner_states ?st) - 1 + k))
                (y_hat_of a dc (output_layer dc
                   (inner_states st' ! (length (inner_states ?st) - 1 + k)))) = Inr new_x"
    "k < length (layers dc)"
    "inner_states st' ! (length (inner_states ?st) + k) = (layers dc ! k) new_x"
    by fastforce
  have n1: "new_x_of w k (feat_inner_states f ! k)
             (y_hat_of a dc (output_layer dc (feat_inner_states f ! k))) = Inr new_x"
    using nx(1) f by simp
  have n2: "feat_inner_states f ! Suc k = (layers dc ! k) new_x" using nx(3) f by simp
  have n3: "w = None \<longrightarrow>
              new_x = blend_plain (feat_inner_states f ! k)
                        (y_hat_of a dc (output_layer dc (feat_inner_states f ! k)))"
    using n1 by (auto simp: new_x_of_def)
  show ?thesis using n1 nx(2) n2 x0 n3 by blast
qed

theorem extract_features_layer_input_witness:
  "extract_features example_decoder_args example_decoder [[1]] (Some 1) False None =
     Inr \<lparr>feat_x = [[[sqrt 2]]],
          feat_inner_states = [[[[1]]], [[[sqrt 2]]]],
          feat_all_layer_output_logits = [[[[0, sqrt 2]]]]\<rparr> \<and>
   Suc 0 < length [[[[1 :: real]]], [[[sqrt 2]]]] \<and>
   [[[[1]]], [[[sqrt 2]]]] ! Suc 0 =
     (layers example_decoder ! 0)
       (blend_plain [[[1]]]
          (y_hat_of example_decoder_args example_decoder (output_layer example_decoder [[[1]]])))"
proof -
  let ?f = "\<lparr>feat_x = [[[sqrt 2]]],
          feat_inner_states = [[[[1]]], [[[sqrt 2]]]],
          feat_all_layer_output_logits = [[[[0, sqrt 2]]]]\<rparr>"
  have k: "Suc 0 < length (feat_inner_states ?f)" by simp
  from extract_features_layer_input [OF example_extract_features k]
  obtain new_x where
    "feat_inner_states ?f ! Suc 0 = (layers example_decoder ! 0) new_x"
    "(None :: real list list option) = None \<longrightarrow>
        new_x = blend_plain (feat_inner_states ?f ! 0)
                  (y_hat_of example_decoder_args example_decoder
                     (output_layer example_decoder (feat_inner_states ?f ! 0)))"
    by blast
  then have "[[[[1]]], [[[sqrt 2]]]] ! Suc 0 =
     (layers example_decoder ! 0)
       (blend_plain [[[1]]]
          (y_hat_of example_decoder_args example_decoder (output_layer example_decoder [[[1]]])))"
    by simp
  then show ?thesis using example_extract_features by (intro conjI) simp_all
qed

text \<open>
  The claim as stated says that layer 0 gets the embedded input unchanged. In the
  example the embedded input is 1 and layer 0 is the identity, yet the state after
  layer 0 is \<open>sqrt 2 = (1 + 1) / sqrt 2\<close>: layer 0 was fed the blend.
\<close>


theorem extract_features_layer0_counterexample:
  "(case extract_features example_decoder_args example_decoder [[1]] (Some 1) False None of
      Inl e \<Rightarrow> []
    | Inr f \<Rightarrow> feat_inner_states f) = [[[[1]]], [[[sqrt 2]]]] \<and>
   layers example_decoder ! 0 = (\<lambda>x. x) \<and>
   sqrt 2 \<noteq> 1"
proof (intro conjI)
  show "(case extract_features example_decoder_args example_decoder [[1]] (Some 1) False None of
      Inl e \<Rightarrow> []
    | Inr f \<Rightarrow> feat_inner_states f) = [[[[1]]], [[[sqrt 2]]]]"
    by (simp add: example_extract_features)
  show "layers example_decoder ! 0 = (\<lambda>x. x)" by (simp add: example_decoder_def)
  show "sqrt 2 \<noteq> 1" by simp
qed

lemma masked_scatter_flat_select:
  "length xs = length ms \<Longrightarrow> length ms = length ys \<Longrightarrow>
   masked_scatter_flat xs ms (map fst (filter snd (zip ys ms)) @ rest) =
     Some (map (\<lambda>(x, m, y). if m then y else x) (zip xs (zip ms ys)))"
proof (induction xs ms ys rule: list_induct3)
  case Nil
  show ?case by simp
next
  case (Cons x xs m ms y ys)
  then show ?case by simp
qed

lemma zip_concat:
  "map length xs = map length ys \<Longrightarrow>
   zip (concat xs) (concat ys) = concat (map (\<lambda>(a, b). zip a b) (zip xs ys))"
proof (induction xs arbitrary: ys)
  case Nil
  then show ?case by simp
next
  case (Cons x xs)
  then obtain y ys' where ys: "ys = y # ys'" by (cases ys) auto
  with Cons.prems have "length x = length y" "map length xs = map length ys'" by simp_all
  then show ?case using Cons.IH [of ys'] ys by simp
qed

lemma length_concat_eq:
  "map length xs = map length ys \<Longrightarrow> length (concat xs) = length (concat ys)"
  by (simp add: length_concat)

lemma unflatten_concat:
  "map length zs = ns \<Longrightarrow> unflatten ns (concat zs) = zs"
proof (induction zs arbitrary: ns)
  case Nil
  then show ?case by auto
next
  case (Cons z zs)
  then show ?case by auto
qed

lemma concat_select2:
  "map length x = map length m \<Longrightarrow> map length y = map length m \<Longrightarrow>
   concat (select2 x m y) =
     map (\<lambda>(e, b, v). if b then v else e) (zip (concat x) (zip (concat m) (concat y)))"
proof (induction x arbitrary: m y)
  case Nil
  then show ?case by (simp add: select2_def)
next
  case (Cons xr x)
  then obtain mr m' where m: "m = mr # m'" by (cases m) auto
  with Cons.prems obtain yr y' where y: "y = yr # y'" by (cases y) auto
  from Cons.prems m y have l: "length xr = length mr" "length yr = length mr"
    "map length x = map length m'" "map length y' = map length m'" by simp_all
  have "concat (select2 x m' y') =
     map (\<lambda>(e, b, v). if b then v else e) (zip (concat x) (zip (concat m') (concat y')))"
    using l(3,4) by (rule Cons.IH)
  then show ?case using m y l(1,2) by (simp add: select2_def)
qed

lemma map_length_select2:
  "map length x = map length m \<Longrightarrow> map length y = map length m \<Longrightarrow>
   map length (select2 x m y) = map length x"
proof (induction x arbitrary: m y)
  case Nil
  then show ?case by (simp add: select2_def)
next
  case (Cons xr x)
  then obtain mr m' where m: "m = mr # m'" by (cases m) auto
  with Cons.prems obtain yr y' where y: "y = yr # y'" by (cases y) auto
  from Cons.prems m y have l: "length xr = length mr" "length yr = length mr"
    "map length x = map length m'" "map length y' = map length m'" by simp_all
  have "map length (select2 x m' y') = map length x" using l(3,4) by (rule Cons.IH)
  then show ?case using m y l(1,2) by (simp add: select2_def)
qed

lemma masked_scatter_select:
  assumes sel: "masked_select y m = Inr src"
    and sc: "masked_scatter x m src = Inr r"
  shows "r = select2 x m y"
proof -
  have ym: "map length y = map length m" and src: "src = map fst (filter snd (zip (concat y) (concat m)))"
    using sel by (auto simp: masked_select_def split: if_splits)
  have xm: "map length x = map length m"
    using sc by (auto simp: masked_scatter_def split: if_splits)
  have lx: "length (concat x) = length (concat m)" using xm by (rule length_concat_eq)
  have ly: "length (concat y) = length (concat m)" using ym by (rule length_concat_eq)
  have flat: "masked_scatter_flat (concat x) (concat m) src =
           Some (map (\<lambda>(e, b, v). if b then v else e) (zip (concat x) (zip (concat m) (concat y))))"
    using masked_scatter_flat_select [OF lx ly [symmetric], of "[]"] src by simp
  have "r = unflatten (map length x) (concat (select2 x m y))"
    using sc xm flat by (simp add: masked_scatter_def concat_select2 [OF xm ym])
  also have "\<dots> = select2 x m y"
    by (rule unflatten_concat) (rule map_length_select2 [OF xm ym])
  finally show ?thesis .
qed

lemma select2_nth:
  "b < length x \<Longrightarrow> b < length m \<Longrightarrow> b < length y \<Longrightarrow>
   t < length (x ! b) \<Longrightarrow> t < length (m ! b) \<Longrightarrow> t < length (y ! b) \<Longrightarrow>
   select2 x m y ! b ! t = (if m ! b ! t then y ! b ! t else x ! b ! t)"
  by (simp add: select2_def)

lemma history_append_clone_frame:
  assumes run: "history_append_clone h hist a = Inr h'"
    and free: "store h (fresh h) = None"
    and x: "store h x = Some v" and nl: "\<forall>l. v \<noteq> PyList l"
  shows "store h' x = Some v"
proof (cases hist)
  case None
  with run x show ?thesis by (simp add: history_append_clone_def)
next
  case (Some l)
  from run Some obtain items u where
    items: "get_list h l = Inr items" and u: "store h a = Some u"
    and h': "h' = (fst (alloc h u))\<lparr>store := (store (fst (alloc h u)))
                      (l \<mapsto> PyList (items @ [snd (alloc h u)]))\<rparr>"
    by (auto simp: history_append_clone_def split: sum.splits option.splits prod.splits)
  have "store h l = Some (PyList items)"
    using items by (auto simp: get_list_def split: option.splits obj.splits)
  with x nl have xl: "x \<noteq> l" by auto
  from x free have xf: "x \<noteq> fresh h" by auto
  show ?thesis using h' xl xf x by (simp add: alloc_def)
qed

lemma greedy_update_in_place:
  assumes run: "greedy_update d idl h s lst = Inr (h', s')"
    and free: "store h (fresh h) = None"
  shows "output_tokens s' = output_tokens s \<and> output_scores s' = output_scores s \<and>
         (\<exists>toks scores lg.
            get_int_tensor h (output_tokens s) = Inr toks \<and>
            get_float_tensor h (output_scores s) = Inr scores \<and>
            py_index lst idl = Inr lg \<and>
            get_int_tensor h' (output_tokens s) =
              Inr (select2 toks (map (map (\<lambda>t. t \<noteq> pad d)) toks) (map (map argmax) lg)) \<and>
            get_float_tensor h' (output_scores s) =
              Inr (select2 scores (map (map (\<lambda>t. t \<noteq> pad d)) toks) (map (map maximum) lg)))"
proof -
  let ?ot = "output_tokens s" and ?os = "output_scores s"
  from run obtain toks where toks: "get_int_tensor h ?ot = Inr toks"
    by (auto simp: greedy_update_def split: sum.splits)
  from run toks obtain scores where scores: "get_float_tensor h ?os = Inr scores"
    by (auto simp: greedy_update_def split: sum.splits)
  let ?m = "map (map (\<lambda>t. t \<noteq> pad d)) toks"
  from run toks scores obtain lg where lg: "py_index lst idl = Inr lg"
    by (auto simp: greedy_update_def Let_def split: sum.splits)
  from run toks scores lg obtain sel_t where st: "masked_select (map (map argmax) lg) ?m = Inr sel_t"
    by (auto simp: greedy_update_def Let_def split: sum.splits)
  from run toks scores lg st obtain nt where nt: "masked_scatter toks ?m sel_t = Inr nt"
    by (auto simp: greedy_update_def Let_def split: sum.splits)
  from run toks scores lg st nt obtain sel_s where
    ss: "masked_select (map (map maximum) lg) ?m = Inr sel_s"
    by (auto simp: greedy_update_def Let_def split: sum.splits)
  from run toks scores lg st nt ss obtain ns where ns: "masked_scatter scores ?m sel_s = Inr ns"
    by (auto simp: greedy_update_def Let_def split: sum.splits)
  let ?h1 = "h\<lparr>store := (store h)(?ot \<mapsto> IntTensor nt)\<rparr>"
  let ?h2 = "?h1\<lparr>store := (store ?h1)(?os \<mapsto> FloatTensor ns)\<rparr>"
  from run toks scores lg st nt ss ns have
    hist: "history_append_clone ?h2 (history s) ?ot = Inr h'"
    and s': "s' = s\<lparr>output_tokens := ?ot, output_scores := ?os, attn := None,
                     history := history s\<rparr>"
    by (auto simp: greedy_update_def Let_def split: sum.splits)
  have st_ot: "store h ?ot = Some (IntTensor toks)"
    using toks by (auto simp: get_int_tensor_def split: option.splits obj.splits)
  have st_os: "store h ?os = Some (FloatTensor scores)"
    using scores by (auto simp: get_float_tensor_def split: option.splits obj.splits)
  have ne: "?ot \<noteq> ?os" using st_ot st_os by auto
  have f_ot: "fresh h \<noteq> ?ot" and f_os: "fresh h \<noteq> ?os" using free st_ot st_os by auto
  have free2: "store ?h2 (fresh ?h2) = None" using free f_ot f_os by simp
  have a_ot: "store ?h2 ?ot = Some (IntTensor nt)" using ne by simp
  have a_os: "store ?h2 ?os = Some (FloatTensor ns)" by simp
  have r_ot: "store h' ?ot = Some (IntTensor nt)"
    using hist free2 a_ot by (rule history_append_clone_frame) simp
  have r_os: "store h' ?os = Some (FloatTensor ns)"
    using hist free2 a_os by (rule history_append_clone_frame) simp
  have nt_eq: "nt = select2 toks ?m (map (map argmax) lg)"
    using st nt by (rule masked_scatter_select)
  have ns_eq: "ns = select2 scores ?m (map (map maximum) lg)"
    using ss ns by (rule masked_scatter_select)
  have g1: "get_int_tensor h' ?ot = Inr (select2 toks ?m (map (map argmax) lg))"
    using r_ot nt_eq by (simp add: get_int_tensor_def)
  have g2: "get_float_tensor h' ?os = Inr (select2 scores ?m (map (map maximum) lg))"
    using r_os ns_eq by (simp add: get_float_tensor_def)
  have o1: "output_tokens s' = ?ot" and o2: "output_scores s' = ?os" using s' by simp_all
  show ?thesis using o1 o2 toks scores lg g1 g2 by blast
qed

subsection \<open>Claim C9: the refinement step updates the caller's tensors\<close>

text \<open>
  C9 (as amended). \<^verbatim>\<open>forward_decoder\<close> of the glancing model, and of the CTC model
  with \<^verbatim>\<open>plain_ctc\<close>, works in place: whenever it returns, the returned state refers
  to the very token and score tensors of the state passed in, and after the call these
  tensors hold, at every non-pad position of the old tokens, the arg-max token and its
  score from the chosen layer's logits, and their old values at the pad positions. The
  state passed in therefore sees the update. (The fresh cell of the store is free.)
\<close>


theorem forward_decoder_updates_in_place:
  assumes run: "forward_decoder d dec idl h s = Inr (h', s') \<or>
                forward_decoder_ctc d True dec ctc_decode idl h s = Inr (h', s')"
    and free: "store h (fresh h) = None"
  shows "output_tokens s' = output_tokens s \<and> output_scores s' = output_scores s \<and>
         (\<exists>toks scores lst lg.
            get_int_tensor h (output_tokens s) = Inr toks \<and>
            get_float_tensor h (output_scores s) = Inr scores \<and>
            (dec True toks (step s) = Inr lst \<or> dec False toks (step s) = Inr lst) \<and>
            py_index lst idl = Inr lg \<and>
            get_int_tensor h' (output_tokens s) =
              Inr (select2 toks (map (map (\<lambda>t. t \<noteq> pad d)) toks) (map (map argmax) lg)) \<and>
            get_float_tensor h' (output_scores s) =
              Inr (select2 scores (map (map (\<lambda>t. t \<noteq> pad d)) toks) (map (map maximum) lg)))"
proof -
  from run obtain toks lst where toks: "get_int_tensor h (output_tokens s) = Inr toks"
    and lst: "dec True toks (step s) = Inr lst \<or> dec False toks (step s) = Inr lst"
    and g: "greedy_update d idl h s lst = Inr (h', s')"
    by (auto simp: forward_decoder_def forward_decoder_ctc_def split: sum.splits)
  from greedy_update_in_place [OF g free]
  obtain toks' scores lg where r:
    "output_tokens s' = output_tokens s" "output_scores s' = output_scores s"
    "get_int_tensor h (output_tokens s) = Inr toks'"
    "get_float_tensor h (output_scores s) = Inr scores"
    "py_index lst idl = Inr lg"
    "get_int_tensor h' (output_tokens s) =
       Inr (select2 toks' (map (map (\<lambda>t. t \<noteq> pad d)) toks') (map (map argmax) lg))"
    "get_float_tensor h' (output_scores s) =
       Inr (select2 scores (map (map (\<lambda>t. t \<noteq> pad d)) toks') (map (map maximum) lg))"
    by blast
  have "toks' = toks" using r(3) toks by simp
  with r lst toks show ?thesis by blast
qed

lemma example_forward_decoder:
  "forward_decoder example_dictionary example_dec (- 1) example_heap example_state =
     Inr (\<lparr>store = [0 \<mapsto> IntTensor [[5, 5, 5, 1]],
                    1 \<mapsto> FloatTensor [[1 / 2, 1 / 2, 1 / 2, 0]],
                    3 \<mapsto> IntTensor [[5, 5, 5, 1]],
                    2 \<mapsto> PyList [3]],
           fresh = 4\<rparr>,
          example_state)"
  by (simp add: forward_decoder_def greedy_update_def example_dictionary_def example_dec_def
      example_heap_def example_state_def get_int_tensor_def get_float_tensor_def py_index_def
      argmax_def maximum_def masked_select_def masked_scatter_def history_append_clone_def
      get_list_def alloc_def Let_def fun_upd_twist)

theorem forward_decoder_updates_in_place_witness:
  "forward_decoder example_dictionary example_dec (- 1) example_heap example_state =
     Inr (\<lparr>store = [0 \<mapsto> IntTensor [[5, 5, 5, 1]],
                    1 \<mapsto> FloatTensor [[1 / 2, 1 / 2, 1 / 2, 0]],
                    3 \<mapsto> IntTensor [[5, 5, 5, 1]],
                    2 \<mapsto> PyList [3]],
           fresh = 4\<rparr>,
          example_state) \<and>
   store example_heap (fresh example_heap) = None \<and>
   (\<exists>toks lg.
      get_int_tensor example_heap (output_tokens example_state) = Inr toks \<and>
      get_int_tensor
        \<lparr>store = [0 \<mapsto> IntTensor [[5, 5, 5, 1]],
                  1 \<mapsto> FloatTensor [[1 / 2, 1 / 2, 1 / 2, 0]],
                  3 \<mapsto> IntTensor [[5, 5, 5, 1]],
                  2 \<mapsto> PyList [3]],
         fresh = 4\<rparr>
        (output_tokens example_state) =
        Inr (select2 toks (map (map (\<lambda>t. t \<noteq> pad example_dictionary)) toks)
               (map (map argmax) lg)))"
proof -
  let ?h' = "\<lparr>store = [0 \<mapsto> IntTensor [[5, 5, 5, 1]],
                    1 \<mapsto> FloatTensor [[1 / 2, 1 / 2, 1 / 2, 0]],
                    3 \<mapsto> IntTensor [[5, 5, 5, 1]],
                    2 \<mapsto> PyList [3]],
           fresh = 4\<rparr>"
  have run: "forward_decoder example_dictionary example_dec (- 1) example_heap example_state
               = Inr (?h', example_state) \<or>
             forward_decoder_ctc example_dictionary True example_dec (\<lambda>l n. ([], [])) (- 1)
               example_heap example_state = Inr (?h', example_state)"
    using example_forward_decoder by (rule disjI1)
  have free: "store example_heap (fresh example_heap) = None"
    by (simp add: example_heap_def)
  from forward_decoder_updates_in_place [OF run free]
  have "\<exists>toks lg.
      get_int_tensor example_heap (output_tokens example_state) = Inr toks \<and>
      get_int_tensor ?h' (output_tokens example_state) =
        Inr (select2 toks (map (map (\<lambda>t. t \<noteq> pad example_dictionary)) toks)
               (map (map argmax) lg))"
    by blast
  then show ?thesis using example_forward_decoder free by (intro conjI)
qed

text \<open>
  The claim as stated says that the tensors of the state passed in are unchanged
  after the call. In the example they held the tokens 0, 3, 2, pad and zero scores
  before the call; afterwards the same objects hold 5, 5, 5, pad and the scores
  1/2, 1/2, 1/2, 0.
\<close>


theorem forward_decoder_mutates_counterexample:
  "get_int_tensor example_heap (output_tokens example_state) = Inr [[0, 3, 2, 1]] \<and>
   get_float_tensor example_heap (output_scores example_state) = Inr [[0, 0, 0, 0]] \<and>
   (case forward_decoder example_dictionary example_dec (- 1) example_heap example_state of
      Inl e \<Rightarrow> Inl e
    | Inr (h', s') \<Rightarrow> get_int_tensor h' (output_tokens example_state)) = Inr [[5, 5, 5, 1]] \<and>
   (case forward_decoder example_dictionary example_dec (- 1) example_heap example_state of
      Inl e \<Rightarrow> Inl e
    | Inr (h', s') \<Rightarrow> get_float_tensor h' (output_scores example_state))
     = Inr [[1 / 2, 1 / 2, 1 / 2, 0]]"
  by (simp add: example_forward_decoder)
     (simp add: example_heap_def example_state_def get_int_tensor_def get_float_tensor_def)

lemma example_skeleton:
  "initialize_output_tokens_by_src_tokens example_ctc_args example_dictionary [[5]] = Inr [[0, 2]]"
  by (simp add: initialize_output_tokens_by_src_tokens_def example_ctc_args_def
      example_dictionary_def build_skeleton_def length_tgt_of_src_def clamp_min_def
      int64_def count_nonpad_def skeleton_row_def upt_rec)

lemma example_gather:
  "gather_logits [[[[1, 0, 0, 0, 0], [1, 0, 0, 0, 0]]], [[[0, 1, 0, 0, 0], [0, 1, 0, 0, 0]]]] [0, 1] 1 2 = [[[1, 0, 0, 0, 0], [0, 1, 0, 0, 0]]]"
proof -
  have "[0..<2] = [0, 1::nat]" by code_simp
  then show ?thesis by (simp add: gather_logits_def)
qed

lemma example_sample_loss:
  "sequence_ctc_loss_with_logits example_torch [[[1, 0, 0, 0, 0], [0, 1, 0, 0, 0]]] [[True, True]]
     [[3, 2]] [[True, True]] 4 0 True =
     Inr \<lparr>ctc_loss_value = Scalar (Fin 6), n_invalid_samples = 0, warning = None\<rparr>"
  by (simp add: sequence_ctc_loss_with_logits_def example_torch_def masked_select_def
      mask_count_def Let_def)

subsection \<open>Claim C3: the cross-layer sampling loss\<close>

text \<open>
  C3. In cross-layer sampling mode the claim asks for the average of the \<open>N\<close> sampled
  losses, their sum divided by \<open>N\<close>. The code divides the sum by
  \<^verbatim>\<open>len(output_logits_list)\<close>, the number of per-layer logits. In the example there is
  one sample, whose loss is 6, and two logits entries: the average over the samples is
  6, the returned loss is 3.
\<close>


theorem forward_ctc_cross_layer_example:
  "num_cross_layer_sample example_ctc_args = 1 \<and>
   example_ctc_dec [[0, 2]] = Inr [[[[1, 0, 0, 0, 0], [1, 0, 0, 0, 0]]], [[[0, 1, 0, 0, 0], [0, 1, 0, 0, 0]]]] \<and>
   sequence_ctc_loss_with_logits example_torch
     (gather_logits [[[[1, 0, 0, 0, 0], [1, 0, 0, 0, 0]]], [[[0, 1, 0, 0, 0], [0, 1, 0, 0, 0]]]] (example_sampled_ids 0) 1 2)
     [[True, True]] [[3, 2]] [[True, True]] 4 0 True =
     Inr \<lparr>ctc_loss_value = Scalar (Fin 6), n_invalid_samples = 0, warning = None\<rparr> \<and>
   forward_ctc example_ctc_args example_dictionary example_torch 4 example_ctc_dec
     example_sampled_ids [[5]] [[3, 2]] True = Inr (Scalar (Fin 3))"
proof (intro conjI)
  show "num_cross_layer_sample example_ctc_args = 1" by (simp add: example_ctc_args_def)
  show "example_ctc_dec [[0, 2]] = Inr [[[[1, 0, 0, 0, 0], [1, 0, 0, 0, 0]]], [[[0, 1, 0, 0, 0], [0, 1, 0, 0, 0]]]]"
    by (simp add: example_ctc_dec_def)
  show "sequence_ctc_loss_with_logits example_torch
     (gather_logits [[[[1, 0, 0, 0, 0], [1, 0, 0, 0, 0]]], [[[0, 1, 0, 0, 0], [0, 1, 0, 0, 0]]]] (example_sampled_ids 0) 1 2)
     [[True, True]] [[3, 2]] [[True, True]] 4 0 True =
     Inr \<lparr>ctc_loss_value = Scalar (Fin 6), n_invalid_samples = 0, warning = None\<rparr>"
    unfolding example_sampled_ids_def example_gather by (rule example_sample_loss)
  show "forward_ctc example_ctc_args example_dictionary example_torch 4 example_ctc_dec
     example_sampled_ids [[5]] [[3, 2]] True = Inr (Scalar (Fin 3))"
    by (simp add: forward_ctc_def example_ctc_args_def example_dictionary_def example_torch_def
        example_ctc_dec_def example_sampled_ids_def
        initialize_output_tokens_by_src_tokens_def build_skeleton_def length_tgt_of_src_def
        clamp_min_def int64_def count_nonpad_def skeleton_row_def gather_logits_def
        sequence_ctc_loss_with_logits_def masked_select_def mask_count_def Let_def upt_rec)
qed

text \<open>
  In general: with scalar, finite sample losses \<open>c 0, \<dots>, c (N - 1)\<close> the returned loss is
  their sum divided by the number of logits entries, whatever \<open>N\<close> is.
\<close>


lemma sample_loop_scalar:
  assumes "\<forall>k \<in> set ids. \<exists>r. body k = Inr r \<and> ctc_loss_value r = Scalar (Fin (c k))"
  shows "sample_loop body ids (Scalar (Fin acc)) = Inr (Scalar (Fin (acc + sum_list (map c ids))))"
  using assms
proof (induction ids arbitrary: acc)
  case Nil
  show ?case by simp
next
  case (Cons k ids)
  from Cons.prems obtain r where r: "body k = Inr r" "ctc_loss_value r = Scalar (Fin (c k))"
    by auto
  have rest: "\<forall>k \<in> set ids. \<exists>r. body k = Inr r \<and> ctc_loss_value r = Scalar (Fin (c k))"
    using Cons.prems by simp
  have "sample_loop body (k # ids) (Scalar (Fin acc)) =
          sample_loop body ids (Scalar (Fin (acc + c k)))"
    using r by simp
  also have "\<dots> = Inr (Scalar (Fin (acc + c k + sum_list (map c ids))))"
    using rest by (rule Cons.IH)
  finally show ?case by (simp add: add.assoc)
qed

lemma forward_ctc_cross_layer_loss:
  assumes skel: "initialize_output_tokens_by_src_tokens a d src_tokens = Inr prev"
    and dec: "dec prev = Inr output_logits_list"
    and ne: "output_logits_list \<noteq> []"
    and n: "num_cross_layer_sample a \<noteq> 0"
    and samples: "\<forall>k \<in> set [0..<nat (num_cross_layer_sample a)]. \<exists>r.
        sequence_ctc_loss_with_logits lib
          (gather_logits output_logits_list (sampled_ids k) (length prev) (length (hd prev)))
          (map (map (\<lambda>t. t \<noteq> pad d)) prev) tgt_tokens
          (map (map (\<lambda>t. t \<noteq> pad d)) tgt_tokens) blank_index (label_smoothing a) reduce
          = Inr r \<and> ctc_loss_value r = Scalar (Fin (c k))"
  shows "forward_ctc a d lib blank_index dec sampled_ids src_tokens tgt_tokens reduce =
           Inr (Scalar (Fin (sum_list (map c [0..<nat (num_cross_layer_sample a)])
                               / real (length output_logits_list))))"
proof -
  have "sample_loop
          (\<lambda>k. sequence_ctc_loss_with_logits lib
             (gather_logits output_logits_list (sampled_ids k) (length prev) (length (hd prev)))
             (map (map (\<lambda>t. t \<noteq> pad d)) prev) tgt_tokens
             (map (map (\<lambda>t. t \<noteq> pad d)) tgt_tokens) blank_index (label_smoothing a) reduce)
          [0..<nat (num_cross_layer_sample a)] (Scalar (Fin 0)) =
        Inr (Scalar (Fin (0 + sum_list (map c [0..<nat (num_cross_layer_sample a)]))))"
    using samples by (rule sample_loop_scalar)
  then show ?thesis
    using skel dec ne n by (simp add: forward_ctc_def Let_def)
qed



lemma length_log_softmax [simp]: "length (log_softmax v) = length v"
  by (simp add: log_softmax_def)













subsection \<open>Claim C7: the CTC loss on short skeletons\<close>




end
